theory Spec2Isabelle
  imports Main "HOL-Library.Sublist" "HOL-Library.List_Lexorder" "HOL-Library.AList"
begin

section \<open>Python strings\<close>

text \<open>
  The validator is \<^verbatim>\<open>plugins/ruby-on-rails/scripts/validate_skills.py\<close>. A Python
  \<^verbatim>\<open>str\<close> is a sequence of Unicode code points, so a character is modelled by its code
  point (\<^verbatim>\<open>ord(c)\<close>) and a string by the list of its code points. \<open>str\<close> turns an
  ASCII literal of the source into that representation.
\<close>

type_synonym pychar = int
type_synonym pystr = "pychar list"

definition str :: "string \<Rightarrow> pystr" where
  "str s = map of_char s"

abbreviation NEWLINE :: pychar where "NEWLINE \<equiv> 10"
abbreviation RETURN :: pychar where "RETURN \<equiv> 13"
abbreviation DQUOTE :: pychar where "DQUOTE \<equiv> 34"
abbreviation HASH :: pychar where "HASH \<equiv> 35"
abbreviation QUOTE :: pychar where "QUOTE \<equiv> 39"
abbreviation LPAREN :: pychar where "LPAREN \<equiv> 40"
abbreviation RPAREN :: pychar where "RPAREN \<equiv> 41"
abbreviation SLASH :: pychar where "SLASH \<equiv> 47"
abbreviation COLON :: pychar where "COLON \<equiv> 58"
abbreviation LBRACKET :: pychar where "LBRACKET \<equiv> 91"
abbreviation RBRACKET :: pychar where "RBRACKET \<equiv> 93"

text \<open>
  \<^verbatim>\<open>str.isspace\<close> for one character, which is also the whitespace that \<^verbatim>\<open>str.strip()\<close>
  and \<^verbatim>\<open>str.split()\<close> without arguments use: TAB, LF, VT, FF, CR, FS, GS, RS, US, SPACE,
  NEL (U+0085), NBSP (U+00A0), U+1680, U+2000 to U+200A, U+2028, U+2029, U+202F, U+205F
  and U+3000.
\<close>

definition isspace :: "pychar \<Rightarrow> bool" where
  "isspace c \<longleftrightarrow>
     (9 \<le> c \<and> c \<le> 13) \<or> (28 \<le> c \<and> c \<le> 32) \<or> c = 133 \<or> c = 160 \<or> c = 5760 \<or>
     (8192 \<le> c \<and> c \<le> 8202) \<or> c = 8232 \<or> c = 8233 \<or> c = 8239 \<or> c = 8287 \<or> c = 12288"

text \<open>\<^verbatim>\<open>s.lstrip()\<close>, \<^verbatim>\<open>s.strip()\<close> and \<^verbatim>\<open>s.strip(chars)\<close>.\<close>

definition lstrip :: "pystr \<Rightarrow> pystr" where
  "lstrip s = dropWhile isspace s"

definition strip :: "pystr \<Rightarrow> pystr" where
  "strip s = rev (dropWhile isspace (rev (dropWhile isspace s)))"

definition strip_chars :: "pystr \<Rightarrow> pystr \<Rightarrow> pystr" where
  "strip_chars s chars =
     rev (dropWhile (\<lambda>c. c \<in> set chars) (rev (dropWhile (\<lambda>c. c \<in> set chars) s)))"

text \<open>\<^verbatim>\<open>s.startswith(p)\<close>, and \<^verbatim>\<open>s.startswith((p1, p2, ...))\<close> with a tuple.\<close>

definition startswith :: "pystr \<Rightarrow> pystr \<Rightarrow> bool" where
  "startswith s p = prefix p s"

definition startswith_any :: "pystr \<Rightarrow> pystr list \<Rightarrow> bool" where
  "startswith_any s ps = list_ex (startswith s) ps"

text \<open>
  \<^verbatim>\<open>str.splitlines()\<close>: a line ends at LF, CR, CR LF, VT, FF, FS, GS, RS, NEL, U+2028 or
  U+2029; the terminators are dropped, and a terminator at the very end of the text does not
  open another line. \<open>splitlines_from cur s\<close> scans \<open>s\<close> with \<open>cur\<close> the line read so far.
\<close>

definition is_linebreak :: "pychar \<Rightarrow> bool" where
  "is_linebreak c \<longleftrightarrow>
     (10 \<le> c \<and> c \<le> 13) \<or> (28 \<le> c \<and> c \<le> 30) \<or> c = 133 \<or> c = 8232 \<or> c = 8233"

fun splitlines_from :: "pystr \<Rightarrow> pystr \<Rightarrow> pystr list" where
  "splitlines_from cur [] = (if cur = [] then [] else [cur])"
| "splitlines_from cur [c] =
     (if is_linebreak c then [cur] else [cur @ [c]])"
| "splitlines_from cur (c # d # s) =
     (if c = RETURN \<and> d = NEWLINE then cur # splitlines_from [] s
      else if is_linebreak c then cur # splitlines_from [] (d # s)
      else splitlines_from (cur @ [c]) (d # s))"

definition splitlines :: "pystr \<Rightarrow> pystr list" where
  "splitlines text = splitlines_from [] text"

text \<open>
  \<^verbatim>\<open>xs.index(x)\<close> and \<^verbatim>\<open>xs.index(x, start)\<close>: the first position of \<open>x\<close> (at or after
  \<open>start\<close>); \<open>None\<close> stands for the \<^verbatim>\<open>ValueError\<close> raised when there is none.
\<close>

fun index_of :: "'a list \<Rightarrow> 'a \<Rightarrow> nat option" where
  "index_of [] x = None"
| "index_of (y # ys) x = (if y = x then Some 0 else map_option Suc (index_of ys x))"

definition index_from :: "'a list \<Rightarrow> 'a \<Rightarrow> nat \<Rightarrow> nat option" where
  "index_from xs x start = map_option (\<lambda>i. i + start) (index_of (drop start xs) x)"

text \<open>
  \<^verbatim>\<open>key, value = line.split(":", 1)\<close> on a line that contains the separator: the part
  before the first separator and the part after it.
\<close>

definition split_once :: "pychar \<Rightarrow> pystr \<Rightarrow> pystr \<times> pystr" where
  "split_once sep s = (takeWhile (\<lambda>c. c \<noteq> sep) s, drop 1 (dropWhile (\<lambda>c. c \<noteq> sep) s))"

section \<open>Frontmatter\<close>

text \<open>
  The loop of \<^verbatim>\<open>parse_frontmatter\<close> over the lines of the block. The dictionary
  \<^verbatim>\<open>data\<close> is an association list in insertion order: assigning to a key that is present
  replaces its value in place, assigning to a new key appends it.
\<close>

fun parse_lines :: "pystr list \<Rightarrow> (pystr \<times> pystr) list \<Rightarrow> (pystr \<times> pystr) list" where
  "parse_lines [] data = data"
| "parse_lines (line # front) data =
     (if strip line = [] \<or> startswith (lstrip line) (str ''#'') then parse_lines front data
      else if COLON \<notin> set line then parse_lines front data
      else (case split_once COLON line of
              (key, val) \<Rightarrow>
                parse_lines front
                  (AList.update (strip key) (strip_chars (strip val) [DQUOTE, QUOTE]) data)))"

text \<open>
  \<^verbatim>\<open>parse_frontmatter\<close> returns the Python pair \<^verbatim>\<open>(data, None)\<close> or
  \<^verbatim>\<open>(None, reason)\<close>; each component is an option, \<open>None\<close> being Python's \<^verbatim>\<open>None\<close>.
\<close>

definition parse_frontmatter :: "pystr \<Rightarrow> (pystr \<times> pystr) list option \<times> pystr option" where
  "parse_frontmatter text =
     (let lines = splitlines text in
      case lines of
        [] \<Rightarrow> (None, Some (str ''missing frontmatter start''))
      | first # _ \<Rightarrow>
          if strip first \<noteq> str ''---'' then (None, Some (str ''missing frontmatter start''))
          else (case index_from lines (str ''---'') 1 of
                  None \<Rightarrow> (None, Some (str ''missing frontmatter end''))
                | Some end_ix \<Rightarrow> (Some (parse_lines (drop 1 (take end_ix lines)) []), None)))"

text \<open>
  The two failure conditions in the words of the specification: the document is empty or its
  first line, trimmed, is not the delimiter token; no line after the first one is the
  delimiter token.
\<close>

definition spec_missing_start :: "pystr \<Rightarrow> bool" where
  "spec_missing_start text \<longleftrightarrow> text = [] \<or> strip (hd (splitlines text)) \<noteq> str ''---''"

definition spec_missing_end :: "pystr \<Rightarrow> bool" where
  "spec_missing_end text \<longleftrightarrow> str ''---'' \<notin> set (tl (splitlines text))"

text \<open>
  The value rule in the words of the specification: one layer of surrounding matching quote
  characters is removed if present.
\<close>

definition spec_unquote_one_layer :: "pystr \<Rightarrow> pystr" where
  "spec_unquote_one_layer v =
     (if 2 \<le> length v \<and> hd v = last v \<and> (hd v = DQUOTE \<or> hd v = QUOTE)
      then butlast (tl v) else v)"

text \<open>The lines of the block that the loop turns into an entry: not blank, not a comment,
  and holding a separator.\<close>

definition entry_line :: "pystr \<Rightarrow> bool" where
  "entry_line line \<longleftrightarrow>
     strip line \<noteq> [] \<and> \<not> startswith (lstrip line) (str ''#'') \<and> COLON \<in> set line"

section \<open>Links\<close>

text \<open>
  \<^verbatim>\<open>LINK_RE = \[[^\]]+\]\(([^)]+)\)\<close>. \<open>LINK_RE_match s\<close> matches the pattern at the
  start of \<open>s\<close> and returns group 1 with the text after the match. Both character classes
  are negated, so they also match line breaks; each \<^verbatim>\<open>+\<close> is greedy and can only end at
  the first excluded character (a shorter run is followed by a character of the class, not
  by the bracket or parenthesis the pattern wants next), so backtracking finds nothing the
  longest run does not.
\<close>

definition LINK_RE_match :: "pystr \<Rightarrow> (pystr \<times> pystr) option" where
  "LINK_RE_match s =
     (case s of
        [] \<Rightarrow> None
      | c # s1 \<Rightarrow>
          if c \<noteq> LBRACKET then None
          else if takeWhile (\<lambda>x. x \<noteq> RBRACKET) s1 = [] then None
          else (case dropWhile (\<lambda>x. x \<noteq> RBRACKET) s1 of
                  [] \<Rightarrow> None
                | _ # s2 \<Rightarrow>
                    (case s2 of
                       [] \<Rightarrow> None
                     | p # s3 \<Rightarrow>
                         if p \<noteq> LPAREN then None
                         else if takeWhile (\<lambda>x. x \<noteq> RPAREN) s3 = [] then None
                         else (case dropWhile (\<lambda>x. x \<noteq> RPAREN) s3 of
                                 [] \<Rightarrow> None
                               | _ # s4 \<Rightarrow> Some (takeWhile (\<lambda>x. x \<noteq> RPAREN) s3, s4)))))"

lemma LINK_RE_match_shorter:
  assumes "LINK_RE_match s = Some (g, rest)"
  shows "length rest < length s"
proof -
  have drop_le: "length (dropWhile P xs) \<le> length xs" for P and xs :: pystr
    by (induction xs) auto
  from assms obtain c s1 b s2 p s3 e where
    s: "s = c # s1" and
    d1: "dropWhile (\<lambda>x. x \<noteq> RBRACKET) s1 = b # s2" and
    s2: "s2 = p # s3" and
    d2: "dropWhile (\<lambda>x. x \<noteq> RPAREN) s3 = e # rest"
    by (auto simp: LINK_RE_match_def split: list.splits if_splits)
  have "length rest < length s3"
    using drop_le [of "\<lambda>x. x \<noteq> RPAREN" s3] d2 by simp
  moreover have "length s3 < length s1"
    using drop_le [of "\<lambda>x. x \<noteq> RBRACKET" s1] d1 s2 by simp
  ultimately show ?thesis
    using s by simp
qed

text \<open>
  \<^verbatim>\<open>LINK_RE.findall(text)\<close>: the group of every match, scanning from the left; the scan
  goes on after the end of a match, and one character further where nothing matches.
\<close>

function LINK_RE_findall :: "pystr \<Rightarrow> pystr list" where
  "LINK_RE_findall [] = []"
| "LINK_RE_findall (c # s) =
     (case LINK_RE_match (c # s) of
        Some (g, rest) \<Rightarrow> g # LINK_RE_findall rest
      | None \<Rightarrow> LINK_RE_findall s)"
  by pat_completeness auto
termination
  by (relation "measure length") (auto dest: LINK_RE_match_shorter)

text \<open>
  \<^verbatim>\<open>s.split()\<close> without arguments: the maximal runs of characters that are not whitespace.
  \<open>split_ws_from cur s\<close> scans \<open>s\<close> with \<open>cur\<close> the run read so far.
\<close>

fun split_ws_from :: "pystr \<Rightarrow> pystr \<Rightarrow> pystr list" where
  "split_ws_from cur [] = (if cur = [] then [] else [cur])"
| "split_ws_from cur (c # s) =
     (if isspace c then (if cur = [] then split_ws_from [] s else cur # split_ws_from [] s)
      else split_ws_from (cur @ [c]) s)"

definition split_ws :: "pystr \<Rightarrow> pystr list" where
  "split_ws s = split_ws_from [] s"

definition excluded_prefixes :: "pystr list" where
  "excluded_prefixes =
     [str ''#'', str ''http://'', str ''https://'', str ''mailto:'', str ''tel:'', str ''//'']"

text \<open>
  The two truncations of \<^verbatim>\<open>iter_relative_links\<close>:
  \<^verbatim>\<open>target = target.split()[0]\<close>, where \<open>None\<close> stands for the \<^verbatim>\<open>IndexError\<close> of an
  empty list, then \<^verbatim>\<open>target = target.split("#", 1)[0]\<close>, the part before the first
  \<^verbatim>\<open>#\<close>.
\<close>

definition truncate_target :: "pystr \<Rightarrow> pystr option" where
  "truncate_target target =
     (case split_ws target of
        [] \<Rightarrow> None
      | tok # _ \<Rightarrow> Some (takeWhile (\<lambda>c. c \<noteq> HASH) tok))"

text \<open>
  The loop of \<^verbatim>\<open>iter_relative_links\<close> over the raw matches. The generator is modelled
  by the list of what it yields; \<open>None\<close> is an exception that leaves the generator.
\<close>

fun iter_relative_links_loop :: "pystr list \<Rightarrow> pystr list option" where
  "iter_relative_links_loop [] = Some []"
| "iter_relative_links_loop (raw # raws) =
     (let target = strip raw in
      if target = [] \<or> startswith_any target excluded_prefixes
      then iter_relative_links_loop raws
      else (case truncate_target target of
              None \<Rightarrow> None
            | Some target' \<Rightarrow>
                if target' = [] then iter_relative_links_loop raws
                else map_option ((#) target') (iter_relative_links_loop raws)))"

definition iter_relative_links :: "pystr \<Rightarrow> pystr list option" where
  "iter_relative_links text = iter_relative_links_loop (LINK_RE_findall text)"

text \<open>
  The filtering pipeline for one raw match in the words of the specification: trim; discard
  if empty or starting with an excluded prefix; truncate at the first whitespace character;
  truncate at the first \<^verbatim>\<open>#\<close>; discard if empty; otherwise yield.
\<close>

definition spec_link_pipeline :: "pystr \<Rightarrow> pystr option" where
  "spec_link_pipeline raw =
     (let trimmed = strip raw in
      if trimmed = [] \<or> (\<exists>p\<in>set excluded_prefixes. prefix p trimmed) then None
      else let cut = takeWhile (\<lambda>c. c \<noteq> HASH) (takeWhile (\<lambda>c. \<not> isspace c) trimmed)
           in if cut = [] then None else Some cut)"

section \<open>Names\<close>

text \<open>
  \<^verbatim>\<open>NAME_RE = ^[a-z0-9-]{1,64}$\<close> with \<^verbatim>\<open>NAME_RE.match(name)\<close>: between 1 and 64
  characters of the class from the start, then the end of the string, which \<^verbatim>\<open>$\<close> also
  accepts just before one final line feed. A line feed is not in the class, so the run of
  class characters has to be the whole prefix.
\<close>

definition name_char :: "pychar \<Rightarrow> bool" where
  "name_char c \<longleftrightarrow> (97 \<le> c \<and> c \<le> 122) \<or> (48 \<le> c \<and> c \<le> 57) \<or> c = 45"

definition NAME_RE_match :: "pystr \<Rightarrow> bool" where
  "NAME_RE_match s \<longleftrightarrow>
     (let run = takeWhile name_char s; rest = dropWhile name_char s
      in 1 \<le> length run \<and> length run \<le> 64 \<and> (rest = [] \<or> rest = [NEWLINE]))"

definition NAME_RE_pattern :: pystr where
  "NAME_RE_pattern = str ''^[a-z0-9-]{1,64}$''"

section \<open>Paths and the file system\<close>

text \<open>
  A \<^verbatim>\<open>pathlib\<close> POSIX path is the list of its \<^verbatim>\<open>parts\<close>; an absolute path starts with
  the part \<^verbatim>\<open>/\<close> (or \<^verbatim>\<open>//\<close>).
\<close>

type_synonym path = "pystr list"

definition is_anchor :: "pystr \<Rightarrow> bool" where
  "is_anchor part \<longleftrightarrow> part = str ''/'' \<or> part = str ''//''"

definition is_absolute :: "path \<Rightarrow> bool" where
  "is_absolute p = (case p of [] \<Rightarrow> False | a # _ \<Rightarrow> is_anchor a)"

fun join_with :: "pystr \<Rightarrow> pystr list \<Rightarrow> pystr" where
  "join_with sep [] = []"
| "join_with sep [x] = x"
| "join_with sep (x # y # xs) = x @ sep @ join_with sep (y # xs)"

text \<open>\<^verbatim>\<open>str(p)\<close>, which the f-strings of the messages use, and \<^verbatim>\<open>p.name\<close>.\<close>

definition path_str :: "path \<Rightarrow> pystr" where
  "path_str p =
     (case p of
        [] \<Rightarrow> str ''.''
      | a # rest \<Rightarrow> if is_anchor a then a @ join_with (str ''/'') rest
                    else join_with (str ''/'') p)"

definition path_name :: "path \<Rightarrow> pystr" where
  "path_name p =
     (case p of
        [] \<Rightarrow> []
      | a # rest \<Rightarrow> if rest = [] \<and> is_anchor a then [] else last p)"

text \<open>\<^verbatim>\<open>s.split(sep)\<close> for a separator of one character.\<close>

fun split_on_from :: "pychar \<Rightarrow> pystr \<Rightarrow> pystr \<Rightarrow> pystr list" where
  "split_on_from sep cur [] = [cur]"
| "split_on_from sep cur (c # s) =
     (if c = sep then cur # split_on_from sep [] s else split_on_from sep (cur @ [c]) s)"

text \<open>
  \<^verbatim>\<open>p / s\<close> for a string \<open>s\<close>: the components of \<open>s\<close> without the empty ones and
  \<^verbatim>\<open>.\<close> are appended, unless \<open>s\<close> starts with a slash and replaces \<open>p\<close>; exactly two
  leading slashes give the root \<^verbatim>\<open>//\<close>.
\<close>

definition path_join :: "path \<Rightarrow> pystr \<Rightarrow> path" where
  "path_join p s =
     (let comps = filter (\<lambda>x. x \<noteq> [] \<and> x \<noteq> str ''.'') (split_on_from SLASH [] s) in
      if startswith s (str ''/'')
      then (if startswith s (str ''//'') \<and> \<not> startswith s (str ''///'')
            then str ''//'' else str ''/'') # comps
      else p @ comps)"

text \<open>
  \<^verbatim>\<open>p.relative_to(other)\<close>: the parts of \<open>p\<close> after those of \<open>other\<close>; \<open>None\<close> stands
  for the \<^verbatim>\<open>ValueError\<close> raised when \<open>other\<close> is not a leading part of \<open>p\<close>.
\<close>

definition relative_to :: "path \<Rightarrow> path \<Rightarrow> path option" where
  "relative_to p other =
     (if other = [] then (if is_absolute p then None else Some p)
      else if prefix other p then Some (drop (length other) p)
      else None)"

text \<open>
  The file system the run reads, fixed for the duration of the run. Each operation answers
  \<open>None\<close> when the library call raises (an \<^verbatim>\<open>OSError\<close>, a decoding error, an embedded
  null byte); nothing in \<^verbatim>\<open>main\<close> catches that, so the run aborts. \<open>fs_iterdir\<close> gives
  the names of the entries of a directory, in the order the system lists them;
  \<open>fs_resolve\<close> is \<^verbatim>\<open>Path.resolve()\<close>, which follows symbolic links.
\<close>

record filesystem =
  fs_is_dir :: "path \<Rightarrow> bool option"
  fs_iterdir :: "path \<Rightarrow> pystr list option"
  fs_exists :: "path \<Rightarrow> bool option"
  fs_read_text :: "path \<Rightarrow> pystr option"
  fs_resolve :: "path \<Rightarrow> path option"

section \<open>The validation run\<close>

text \<open>The two accumulators of \<^verbatim>\<open>main\<close>: the list \<^verbatim>\<open>errors\<close> and the dictionary
  \<^verbatim>\<open>seen_names\<close>, in insertion order.\<close>

record vstate =
  errors :: "pystr list"
  seen_names :: "(pystr \<times> pystr) list"

definition add_error :: "pystr \<Rightarrow> vstate \<Rightarrow> vstate" where
  "add_error msg st = st\<lparr>errors := errors st @ [msg]\<rparr>"

text \<open>The messages, as the f-strings build them.\<close>

definition msg_missing_skill_md :: "path \<Rightarrow> pystr" where
  "msg_missing_skill_md skill_md = path_str skill_md @ str '': missing SKILL.md''"

definition msg_frontmatter :: "path \<Rightarrow> pystr \<Rightarrow> pystr" where
  "msg_frontmatter skill_md err = path_str skill_md @ str '': '' @ err"

definition msg_missing_name :: "path \<Rightarrow> pystr" where
  "msg_missing_name skill_md = path_str skill_md @ str '': missing name in frontmatter''"

definition msg_name_mismatch :: "path \<Rightarrow> pystr \<Rightarrow> pystr \<Rightarrow> pystr" where
  "msg_name_mismatch skill_md name folder =
     path_str skill_md @ str '': name '' @ [QUOTE] @ name @ [QUOTE] @
     str '' does not match folder '' @ [QUOTE] @ folder @ [QUOTE]"

definition msg_name_pattern :: "path \<Rightarrow> pystr \<Rightarrow> pystr" where
  "msg_name_pattern skill_md name =
     path_str skill_md @ str '': name '' @ [QUOTE] @ name @ [QUOTE] @
     str '' must match '' @ NAME_RE_pattern"

definition msg_duplicate_name :: "path \<Rightarrow> pystr \<Rightarrow> pystr \<Rightarrow> pystr" where
  "msg_duplicate_name skill_md name first_seen =
     path_str skill_md @ str '': duplicate name '' @ [QUOTE] @ name @ [QUOTE] @
     str '' also in '' @ first_seen"

definition msg_link_escapes :: "path \<Rightarrow> pystr \<Rightarrow> pystr" where
  "msg_link_escapes skill_md link = path_str skill_md @ str '': link escapes skill dir: '' @ link"

definition msg_missing_link :: "path \<Rightarrow> pystr \<Rightarrow> pystr" where
  "msg_missing_link skill_md link = path_str skill_md @ str '': missing link target: '' @ link"

text \<open>
  The name checks of one folder: \<^verbatim>\<open>name = (meta or {}).get("name", "")\<close> and the
  \<^verbatim>\<open>if not name: ... else: ...\<close> block.
\<close>

definition check_name :: "path \<Rightarrow> path \<Rightarrow> (pystr \<times> pystr) list option \<Rightarrow> vstate \<Rightarrow> vstate" where
  "check_name skill_dir skill_md meta st =
     (let name = (case map_of (case meta of None \<Rightarrow> [] | Some m \<Rightarrow> m) (str ''name'') of
                    None \<Rightarrow> []
                  | Some v \<Rightarrow> v) in
      if name = [] then add_error (msg_missing_name skill_md) st
      else
        let st1 = (if name \<noteq> path_name skill_dir
                   then add_error (msg_name_mismatch skill_md name (path_name skill_dir)) st
                   else st);
            st2 = (if \<not> NAME_RE_match name
                   then add_error (msg_name_pattern skill_md name) st1
                   else st1)
        in (case map_of (seen_names st2) name of
              Some first_seen \<Rightarrow> add_error (msg_duplicate_name skill_md name first_seen) st2
            | None \<Rightarrow>
                st2\<lparr>seen_names := AList.update name (path_str skill_md) (seen_names st2)\<rparr>))"

text \<open>The body of the loop over the links of one document, and the loop.\<close>

definition check_link :: "filesystem \<Rightarrow> path \<Rightarrow> path \<Rightarrow> pystr \<Rightarrow> vstate \<Rightarrow> vstate option" where
  "check_link fs skill_dir skill_md link st =
     (case fs_resolve fs (path_join skill_dir link) of
        None \<Rightarrow> None
      | Some target_path \<Rightarrow>
          (case fs_resolve fs skill_dir of
             None \<Rightarrow> None
           | Some root \<Rightarrow>
               (case relative_to target_path root of
                  None \<Rightarrow> Some (add_error (msg_link_escapes skill_md link) st)
                | Some _ \<Rightarrow>
                    (case fs_exists fs target_path of
                       None \<Rightarrow> None
                     | Some found \<Rightarrow>
                         Some (if \<not> found then add_error (msg_missing_link skill_md link) st
                               else st)))))"

fun check_links :: "filesystem \<Rightarrow> path \<Rightarrow> path \<Rightarrow> pystr list \<Rightarrow> vstate \<Rightarrow> vstate option" where
  "check_links fs skill_dir skill_md [] st = Some st"
| "check_links fs skill_dir skill_md (link # links) st =
     (case check_link fs skill_dir skill_md link st of
        None \<Rightarrow> None
      | Some st' \<Rightarrow> check_links fs skill_dir skill_md links st')"

text \<open>
  The body of the loop over the skill folders. \<^verbatim>\<open>if err:\<close> tests the reason for
  truth: it is not \<^verbatim>\<open>None\<close> and not the empty string.
\<close>

definition validate_skill :: "filesystem \<Rightarrow> path \<Rightarrow> vstate \<Rightarrow> vstate option" where
  "validate_skill fs skill_dir st =
     (let skill_md = path_join skill_dir (str ''SKILL.md'') in
      case fs_exists fs skill_md of
        None \<Rightarrow> None
      | Some found \<Rightarrow>
          if \<not> found then Some (add_error (msg_missing_skill_md skill_md) st)
          else (case fs_read_text fs skill_md of
                  None \<Rightarrow> None
                | Some text \<Rightarrow>
                    (case parse_frontmatter text of
                       (meta, err) \<Rightarrow>
                         let checks =
                           (case iter_relative_links text of
                              None \<Rightarrow> None
                            | Some links \<Rightarrow>
                                check_links fs skill_dir skill_md links
                                  (check_name skill_dir skill_md meta st))
                         in (case err of
                               None \<Rightarrow> checks
                             | Some reason \<Rightarrow>
                                 if reason \<noteq> []
                                 then Some (add_error (msg_frontmatter skill_md reason) st)
                                 else checks))))"

fun validate_skills :: "filesystem \<Rightarrow> path list \<Rightarrow> vstate \<Rightarrow> vstate option" where
  "validate_skills fs [] st = Some st"
| "validate_skills fs (skill_dir # dirs) st =
     (case validate_skill fs skill_dir st of
        None \<Rightarrow> None
      | Some st' \<Rightarrow> validate_skills fs dirs st')"

text \<open>\<^verbatim>\<open>p for p in skills_dir.iterdir() if p.is_dir()\<close>, which \<^verbatim>\<open>sorted\<close> consumes.\<close>

fun filter_dirs :: "filesystem \<Rightarrow> path list \<Rightarrow> path list option" where
  "filter_dirs fs [] = Some []"
| "filter_dirs fs (p # ps) =
     (case fs_is_dir fs p of
        None \<Rightarrow> None
      | Some d \<Rightarrow>
          (case filter_dirs fs ps of
             None \<Rightarrow> None
           | Some ds \<Rightarrow> Some (if d then p # ds else ds)))"

text \<open>
  \<^verbatim>\<open>main\<close> up to the report: the list \<^verbatim>\<open>errors\<close> it has accumulated. \<open>repo_root\<close> is
  \<^verbatim>\<open>Path(__file__).resolve().parents[1]\<close>. The folders are siblings, so sorting the paths
  by their parts sorts them by folder name, code point by code point.
\<close>

definition main_errors :: "filesystem \<Rightarrow> path \<Rightarrow> pystr list option" where
  "main_errors fs repo_root =
     (let skills_dir = path_join repo_root (str ''skills'') in
      case fs_is_dir fs skills_dir of
        None \<Rightarrow> None
      | Some d \<Rightarrow>
          if \<not> d then Some [str ''skills/ directory not found'']
          else (case fs_iterdir fs skills_dir of
                  None \<Rightarrow> None
                | Some names \<Rightarrow>
                    (case filter_dirs fs (map (\<lambda>n. skills_dir @ [n]) names) of
                       None \<Rightarrow> None
                     | Some dirs \<Rightarrow>
                         map_option errors
                           (validate_skills fs (sort dirs)
                              \<lparr>errors = [], seen_names = []\<rparr>))))"

text \<open>The end of \<^verbatim>\<open>main\<close>: the printed lines and the exit status.\<close>

definition report :: "pystr list \<Rightarrow> pystr list \<times> int" where
  "report errs =
     (if errs \<noteq> []
      then (str ''Skill validation failed:'' # map (\<lambda>err. str ''- '' @ err) errs, 1)
      else ([str ''Skill validation passed.''], 0))"

definition main :: "filesystem \<Rightarrow> path \<Rightarrow> (pystr list \<times> int) option" where
  "main fs repo_root = map_option report (main_errors fs repo_root)"

section \<open>Concrete file systems\<close>

text \<open>
  A file system without symbolic links, given by its directories and its files with their
  contents, on which the run can be evaluated. Resolving an absolute path removes the
  \<^verbatim>\<open>..\<close> parts; the parent of the root is the root.
\<close>

fun normalize_from :: "path \<Rightarrow> path \<Rightarrow> path" where
  "normalize_from seen [] = seen"
| "normalize_from seen (part # parts) =
     (if part = str ''..''
      then normalize_from (if length seen \<le> 1 then seen else butlast seen) parts
      else normalize_from (seen @ [part]) parts)"

definition tree_fs :: "path list \<Rightarrow> (path \<times> pystr) list \<Rightarrow> filesystem" where
  "tree_fs dirs files =
     \<lparr>fs_is_dir = (\<lambda>p. Some (p \<in> set dirs)),
      fs_iterdir = (\<lambda>p. if p \<in> set dirs
                         then Some (map last (filter (\<lambda>q. q \<noteq> [] \<and> butlast q = p)
                                               (dirs @ map fst files)))
                         else None),
      fs_exists = (\<lambda>p. Some (p \<in> set dirs \<or> p \<in> set (map fst files))),
      fs_read_text = map_of files,
      fs_resolve = (\<lambda>p. Some (normalize_from [] p))\<rparr>"

definition repo :: path where
  "repo = [str ''/'', str ''repo'']"

definition skills :: path where
  "skills = repo @ [str ''skills'']"

text \<open>A document with the frontmatter \<^verbatim>\<open>name: <name>\<close> and the given body.\<close>

definition document :: "pystr \<Rightarrow> pystr \<Rightarrow> pystr" where
  "document name body =
     str ''---'' @ [NEWLINE] @ str ''name: '' @ name @ [NEWLINE] @ str ''---'' @ [NEWLINE] @ body"

text \<open>Three folders \<^verbatim>\<open>a\<close>, \<^verbatim>\<open>b\<close>, \<^verbatim>\<open>c\<close>, listed out of order, that all declare the
  name \<^verbatim>\<open>a\<close>.\<close>

definition three_fs :: filesystem where
  "three_fs =
     tree_fs [repo, skills, skills @ [str ''c''], skills @ [str ''a''], skills @ [str ''b'']]
       [(skills @ [str ''c'', str ''SKILL.md''], document (str ''a'') []),
        (skills @ [str ''a'', str ''SKILL.md''], document (str ''a'') []),
        (skills @ [str ''b'', str ''SKILL.md''], document (str ''a'') [])]"

text \<open>One folder \<^verbatim>\<open>demo\<close> whose document declares another name and links to a file
  outside the folder, a missing file, a file of the folder and a web page.\<close>

definition demo_text :: pystr where
  "demo_text =
     document (str ''other-skill'')
       (str ''[out](../../etc/passwd) [gone](resources/missing.txt) '' @
        str ''[ok](notes.md#top) [web](https://example.com/page)'')"

definition demo_fs :: filesystem where
  "demo_fs =
     tree_fs [repo, skills, skills @ [str ''demo'']]
       [(skills @ [str ''demo'', str ''SKILL.md''], demo_text),
        (skills @ [str ''demo'', str ''notes.md''], str ''notes'')]"

text \<open>Two folders \<^verbatim>\<open>p\<close> and \<^verbatim>\<open>q\<close> whose documents both hold \<^verbatim>\<open>name:\<close> with an
  empty value.\<close>

definition blank_fs :: filesystem where
  "blank_fs =
     tree_fs [repo, skills, skills @ [str ''p''], skills @ [str ''q'']]
       [(skills @ [str ''p'', str ''SKILL.md''], document [] []),
        (skills @ [str ''q'', str ''SKILL.md''], document [] [])]"

section \<open>The name a folder declares\<close>

text \<open>
  The name that the name checks of a folder work on, when they are reached with a
  non-empty name: the document exists, can be read, its frontmatter parses and the value
  of \<^verbatim>\<open>name\<close> is not empty.
\<close>

definition declared_name :: "filesystem \<Rightarrow> path \<Rightarrow> pystr option" where
  "declared_name fs skill_dir =
     (let skill_md = path_join skill_dir (str ''SKILL.md'') in
      if fs_exists fs skill_md \<noteq> Some True then None
      else (case fs_read_text fs skill_md of
              None \<Rightarrow> None
            | Some text \<Rightarrow>
                (case parse_frontmatter text of
                   (None, _) \<Rightarrow> None
                 | (Some meta, _) \<Rightarrow>
                     (case map_of meta (str ''name'') of
                        None \<Rightarrow> None
                      | Some name \<Rightarrow> if name = [] then None else Some name))))"

section \<open>Properties of the frontmatter parser\<close>

lemma splitlines_from_Nil_iff: "splitlines_from cur s = [] \<longleftrightarrow> cur = [] \<and> s = []"
  by (induction cur s rule: splitlines_from.induct) auto

lemma splitlines_Nil_iff: "splitlines text = [] \<longleftrightarrow> text = []"
  by (simp add: splitlines_def splitlines_from_Nil_iff)

lemma index_of_None_iff: "index_of xs x = None \<longleftrightarrow> x \<notin> set xs"
  by (induction xs) auto

lemma index_from_None_iff: "index_from xs x n = None \<longleftrightarrow> x \<notin> set (drop n xs)"
  by (simp add: index_from_def index_of_None_iff)

lemma start_reason_nonempty: "str ''missing frontmatter start'' \<noteq> []"
  by (simp add: str_def)

lemma end_reason_nonempty: "str ''missing frontmatter end'' \<noteq> []"
  by (simp add: str_def)

lemma reasons_differ: "str ''missing frontmatter start'' \<noteq> str ''missing frontmatter end''"
  by (simp add: str_def)

text \<open>
  C9. For every text, \<^verbatim>\<open>parse_frontmatter\<close> returns either a mapping paired with
  \<^verbatim>\<open>None\<close>, or \<^verbatim>\<open>None\<close> paired with a non-empty reason: exactly one component of the
  pair is \<^verbatim>\<open>None\<close>, never both and never neither.
\<close>

theorem parse_frontmatter_one_none:
  "(\<exists>data. parse_frontmatter text = (Some data, None)) \<or>
   (\<exists>reason. reason \<noteq> [] \<and> parse_frontmatter text = (None, Some reason))"
  by (simp add: parse_frontmatter_def Let_def start_reason_nonempty end_reason_nonempty
      split: list.split option.split)

theorem parse_frontmatter_one_none_witness:
  "parse_frontmatter (str ''---'' @ [NEWLINE] @ str ''name: demo'' @ [NEWLINE] @ str ''---'')
     = (Some [(str ''name'', str ''demo'')], None) \<and>
   parse_frontmatter (str ''name: demo'') = (None, Some (str ''missing frontmatter start''))"
proof -
  have "parse_frontmatter (str ''---'' @ [NEWLINE] @ str ''name: demo'' @ [NEWLINE] @ str ''---'')
     = (Some [(str ''name'', str ''demo'')], None)"
    by code_simp
  moreover have "parse_frontmatter (str ''name: demo'')
     = (None, Some (str ''missing frontmatter start''))"
    by code_simp
  ultimately show ?thesis
    using parse_frontmatter_one_none [of "str ''name: demo''"] by simp
qed

lemma parse_frontmatter_cases:
  "parse_frontmatter text =
     (if spec_missing_start text then (None, Some (str ''missing frontmatter start''))
      else if spec_missing_end text then (None, Some (str ''missing frontmatter end''))
      else (Some (parse_lines
                    (drop 1 (take (the (index_from (splitlines text) (str ''---'') 1))
                       (splitlines text))) []), None))"
proof (cases "splitlines text")
  case Nil
  then have "text = []"
    by (simp add: splitlines_Nil_iff)
  with Nil show ?thesis
    by (simp add: parse_frontmatter_def spec_missing_start_def)
next
  case (Cons first rest)
  then have nonempty: "text \<noteq> []"
    using splitlines_Nil_iff [of "text"] by auto
  show ?thesis
  proof (cases "index_from (first # rest) (str ''---'') 1")
    case None
    then have "str ''---'' \<notin> set rest"
      by (simp add: index_from_None_iff)
    with Cons None nonempty show ?thesis
      by (simp add: parse_frontmatter_def spec_missing_start_def spec_missing_end_def Let_def)
  next
    case (Some end_ix)
    then have "str ''---'' \<in> set rest"
      using index_from_None_iff [of "first # rest" "str ''---''" 1] by auto
    with Cons Some nonempty show ?thesis
      by (simp add: parse_frontmatter_def spec_missing_start_def spec_missing_end_def Let_def)
  qed
qed

text \<open>
  C3. The parser fails with "missing frontmatter start" exactly when the text is empty or
  its first line, trimmed, is not \<^verbatim>\<open>---\<close>; otherwise it fails with "missing frontmatter
  end" exactly when no later line is \<^verbatim>\<open>---\<close>; otherwise it succeeds. The two reasons are
  different strings, so the three outcomes exclude each other.
\<close>

theorem parse_frontmatter_failure_reasons:
  "(snd (parse_frontmatter text) = Some (str ''missing frontmatter start'')
      \<longleftrightarrow> spec_missing_start text) \<and>
   (snd (parse_frontmatter text) = Some (str ''missing frontmatter end'')
      \<longleftrightarrow> \<not> spec_missing_start text \<and> spec_missing_end text) \<and>
   ((\<exists>data. parse_frontmatter text = (Some data, None))
      \<longleftrightarrow> \<not> spec_missing_start text \<and> \<not> spec_missing_end text) \<and>
   (fst (parse_frontmatter text) = None
      \<longleftrightarrow> spec_missing_start text \<or> spec_missing_end text)"
  using reasons_differ reasons_differ [symmetric]
  by (simp add: parse_frontmatter_cases)

theorem parse_frontmatter_failure_reasons_witness:
  "snd (parse_frontmatter (str ''name: demo'')) = Some (str ''missing frontmatter start'') \<and>
   spec_missing_start (str ''name: demo'') \<and>
   snd (parse_frontmatter (str ''---'' @ [NEWLINE] @ str ''name: demo''))
     = Some (str ''missing frontmatter end'') \<and>
   \<not> spec_missing_start (str ''---'' @ [NEWLINE] @ str ''name: demo'') \<and>
   spec_missing_end (str ''---'' @ [NEWLINE] @ str ''name: demo'')"
proof -
  have "spec_missing_start (str ''name: demo'')"
    by code_simp
  moreover have "\<not> spec_missing_start (str ''---'' @ [NEWLINE] @ str ''name: demo'')"
    by code_simp
  moreover have "spec_missing_end (str ''---'' @ [NEWLINE] @ str ''name: demo'')"
    by code_simp
  ultimately show ?thesis
    using parse_frontmatter_failure_reasons [of "str ''name: demo''"]
      parse_frontmatter_failure_reasons [of "str ''---'' @ [NEWLINE] @ str ''name: demo''"]
    by simp
qed

lemma strip_chars_decomp:
  "\<exists>a b. s = a @ strip_chars s cs @ b \<and> set a \<subseteq> set cs \<and> set b \<subseteq> set cs"
proof -
  let ?P = "\<lambda>c. c \<in> set cs"
  let ?m = "dropWhile ?P s"
  have "rev ?m = takeWhile ?P (rev ?m) @ dropWhile ?P (rev ?m)"
    by simp
  then have "?m = rev (dropWhile ?P (rev ?m)) @ rev (takeWhile ?P (rev ?m))"
    by (metis rev_append rev_rev_ident)
  then have "s = takeWhile ?P s @ strip_chars s cs @ rev (takeWhile ?P (rev ?m))"
    by (metis strip_chars_def takeWhile_dropWhile_id)
  moreover have "set (takeWhile ?P s) \<subseteq> set cs"
    by (auto dest: set_takeWhileD)
  moreover have "set (rev (takeWhile ?P (rev ?m))) \<subseteq> set cs"
    by (auto dest: set_takeWhileD)
  ultimately show ?thesis
    by blast
qed

lemma strip_chars_ends:
  assumes "strip_chars s cs \<noteq> []"
  shows "hd (strip_chars s cs) \<notin> set cs \<and> last (strip_chars s cs) \<notin> set cs"
proof -
  let ?P = "\<lambda>c. c \<in> set cs"
  let ?m = "dropWhile ?P s"
  let ?d = "dropWhile ?P (rev ?m)"
  from assms have d: "?d \<noteq> []"
    by (simp add: strip_chars_def)
  then have m: "?m \<noteq> []"
    by (auto simp del: dropWhile_eq_Nil_conv)
  have "last (strip_chars s cs) = hd ?d"
    by (simp add: strip_chars_def last_rev)
  moreover have "\<not> ?P (hd ?d)"
    using d by (rule hd_dropWhile)
  moreover have "hd (strip_chars s cs) = last ?d"
    by (simp add: strip_chars_def hd_rev)
  moreover have "last ?d = last (rev ?m)"
    using d by (metis last_appendR takeWhile_dropWhile_id)
  moreover have "last (rev ?m) = hd ?m"
    by (simp add: last_rev)
  moreover have "\<not> ?P (hd ?m)"
    using m by (rule hd_dropWhile)
  ultimately show ?thesis
    by simp
qed

lemma split_once_decomp:
  assumes "sep \<in> set s" "split_once sep s = (a, b)"
  shows "s = a @ sep # b \<and> sep \<notin> set a"
proof -
  from assms(1) have "dropWhile (\<lambda>c. c \<noteq> sep) s \<noteq> []"
    by auto
  moreover have "hd (dropWhile (\<lambda>c. c \<noteq> sep) s) = sep"
    using calculation hd_dropWhile [of "\<lambda>c. c \<noteq> sep" s] by simp
  ultimately have "dropWhile (\<lambda>c. c \<noteq> sep) s = sep # drop 1 (dropWhile (\<lambda>c. c \<noteq> sep) s)"
    by (cases "dropWhile (\<lambda>c. c \<noteq> sep) s") auto
  then have "s = takeWhile (\<lambda>c. c \<noteq> sep) s @ sep # drop 1 (dropWhile (\<lambda>c. c \<noteq> sep) s)"
    by (metis takeWhile_dropWhile_id)
  moreover have "sep \<notin> set (takeWhile (\<lambda>c. c \<noteq> sep) s)"
    by (auto dest: set_takeWhileD)
  ultimately show ?thesis
    using assms(2) by (auto simp: split_once_def)
qed

lemma parse_lines_other_keys:
  "\<forall>l\<in>set post. entry_line l \<longrightarrow> strip (fst (split_once COLON l)) \<noteq> k \<Longrightarrow>
   map_of (parse_lines post data) k = map_of data k"
  by (induction post arbitrary: data) (auto simp: entry_line_def update_conv' split: prod.splits)

lemma parse_lines_append:
  "parse_lines (pre @ post) data = parse_lines post (parse_lines pre data)"
  by (induction pre arbitrary: data) (auto split: prod.splits)

lemma parse_lines_entry_aux:
  assumes "entry_line line" "split_once COLON line = (key, val)"
    and "\<forall>l\<in>set post. entry_line l \<longrightarrow> strip (fst (split_once COLON l)) \<noteq> strip key"
  shows "map_of (parse_lines (pre @ line # post) data) (strip key)
           = Some (strip_chars (strip val) [DQUOTE, QUOTE])"
  using assms
  by (simp add: parse_lines_append parse_lines_other_keys update_conv' entry_line_def)

text \<open>
  C2 (as amended). A line of the block that is not blank, is not a comment and holds a
  \<^verbatim>\<open>:\<close> is split at its first \<^verbatim>\<open>:\<close> into a key and a value; the mapping holds,
  under the trimmed key, the trimmed value without any of its leading and trailing quote
  characters (of either kind, however many, matching or not), unless a later line assigns
  the same key. \<^verbatim>\<open>key: "quoted value"\<close> parses to \<^verbatim>\<open>quoted value\<close>.
\<close>

theorem parse_lines_entry:
  assumes "entry_line line" and "split_once COLON line = (key, val)"
    and "\<forall>l\<in>set post. entry_line l \<longrightarrow> strip (fst (split_once COLON l)) \<noteq> strip key"
  shows "line = key @ COLON # val \<and> COLON \<notin> set key \<and>
    (\<exists>v a b. map_of (parse_lines (pre @ line # post) data) (strip key) = Some v \<and>
       strip val = a @ v @ b \<and> set a \<subseteq> {DQUOTE, QUOTE} \<and> set b \<subseteq> {DQUOTE, QUOTE} \<and>
       (v \<noteq> [] \<longrightarrow> hd v \<notin> {DQUOTE, QUOTE} \<and> last v \<notin> {DQUOTE, QUOTE})) \<and>
    parse_frontmatter
      (str ''---'' @ [NEWLINE] @ str ''key: '' @ [DQUOTE] @ str ''quoted value'' @ [DQUOTE] @
       [NEWLINE] @ str ''---'' @ [NEWLINE])
      = (Some [(str ''key'', str ''quoted value'')], None)"
proof -
  let ?v = "strip_chars (strip val) [DQUOTE, QUOTE]"
  from assms(1) have colon: "COLON \<in> set line"
    by (simp add: entry_line_def)
  have split: "line = key @ COLON # val \<and> COLON \<notin> set key"
    using colon assms(2) by (rule split_once_decomp)
  have stored: "map_of (parse_lines (pre @ line # post) data) (strip key) = Some ?v"
    using assms by (rule parse_lines_entry_aux)
  obtain a b where ab: "strip val = a @ ?v @ b" "set a \<subseteq> set [DQUOTE, QUOTE]"
      "set b \<subseteq> set [DQUOTE, QUOTE]"
    using strip_chars_decomp [of "strip val" "[DQUOTE, QUOTE]"] by blast
  have ends: "?v \<noteq> [] \<longrightarrow> hd ?v \<notin> {DQUOTE, QUOTE} \<and> last ?v \<notin> {DQUOTE, QUOTE}"
    using strip_chars_ends [of "strip val" "[DQUOTE, QUOTE]"] by simp
  have example: "parse_frontmatter
      (str ''---'' @ [NEWLINE] @ str ''key: '' @ [DQUOTE] @ str ''quoted value'' @ [DQUOTE] @
       [NEWLINE] @ str ''---'' @ [NEWLINE])
      = (Some [(str ''key'', str ''quoted value'')], None)"
    by code_simp
  from ab have "strip val = a @ ?v @ b \<and> set a \<subseteq> {DQUOTE, QUOTE} \<and> set b \<subseteq> {DQUOTE, QUOTE}"
    by simp
  with split stored ends example show ?thesis
    by blast
qed

theorem parse_lines_entry_witness:
  "entry_line (str ''name: '' @ [QUOTE, DQUOTE] @ str ''demo'' @ [QUOTE]) \<and>
   str ''name: '' @ [QUOTE, DQUOTE] @ str ''demo'' @ [QUOTE]
     = str ''name'' @ COLON # (str '' '' @ [QUOTE, DQUOTE] @ str ''demo'' @ [QUOTE]) \<and>
   map_of (parse_lines
             [str ''name: old'', str ''name: '' @ [QUOTE, DQUOTE] @ str ''demo'' @ [QUOTE],
              str ''# name: x'', str ''other: y''] []) (str ''name'') = Some (str ''demo'')"
proof -
  let ?line = "str ''name: '' @ [QUOTE, DQUOTE] @ str ''demo'' @ [QUOTE]"
  let ?val = "str '' '' @ [QUOTE, DQUOTE] @ str ''demo'' @ [QUOTE]"
  have h1: "entry_line ?line"
    by code_simp
  have h2: "split_once COLON ?line = (str ''name'', ?val)"
    by code_simp
  have h3: "\<forall>l\<in>set [str ''# name: x'', str ''other: y''].
      entry_line l \<longrightarrow> strip (fst (split_once COLON l)) \<noteq> strip (str ''name'')"
    by code_simp
  have split: "?line = str ''name'' @ COLON # ?val"
    using parse_lines_entry [OF h1 h2 h3, of "[str ''name: old'']" "[]"] by (rule conjunct1)
  have stored: "map_of (parse_lines
             [str ''name: old'', str ''name: '' @ [QUOTE, DQUOTE] @ str ''demo'' @ [QUOTE],
              str ''# name: x'', str ''other: y''] []) (str ''name'') = Some (str ''demo'')"
    by code_simp
  from h1 split stored show ?thesis
    by (intro conjI)
qed

theorem quote_layers_counterexample:
  "parse_frontmatter
     (str ''---'' @ [NEWLINE] @ str ''k: '' @ [DQUOTE, DQUOTE] @ str ''v'' @ [DQUOTE, DQUOTE] @
      [NEWLINE] @ str ''---'')
     = (Some [(str ''k'', str ''v'')], None) \<and>
   spec_unquote_one_layer
     (strip (snd (split_once COLON (str ''k: '' @ [DQUOTE, DQUOTE] @ str ''v'' @ [DQUOTE, DQUOTE]))))
     = [DQUOTE] @ str ''v'' @ [DQUOTE] \<and>
   str ''v'' \<noteq> [DQUOTE] @ str ''v'' @ [DQUOTE] \<and>
   parse_frontmatter
     (str ''---'' @ [NEWLINE] @ str ''k: '' @ [DQUOTE] @ str ''v'' @ [QUOTE] @
      [NEWLINE] @ str ''---'')
     = (Some [(str ''k'', str ''v'')], None) \<and>
   spec_unquote_one_layer
     (strip (snd (split_once COLON (str ''k: '' @ [DQUOTE] @ str ''v'' @ [QUOTE]))))
     = [DQUOTE] @ str ''v'' @ [QUOTE] \<and>
   COLON \<in> set (str ''# k: v'') \<and>
   parse_frontmatter
     (str ''---'' @ [NEWLINE] @ str ''# k: v'' @ [NEWLINE] @ str ''---'')
     = (Some [], None)"
  by code_simp

section \<open>Properties of the link extractor\<close>

lemma trim_ends:
  assumes "rev (dropWhile P (rev (dropWhile P s))) \<noteq> []"
  shows "\<not> P (hd (rev (dropWhile P (rev (dropWhile P s))))) \<and>
         \<not> P (last (rev (dropWhile P (rev (dropWhile P s)))))"
proof -
  let ?m = "dropWhile P s"
  let ?d = "dropWhile P (rev ?m)"
  from assms have d: "?d \<noteq> []"
    by simp
  then have m: "?m \<noteq> []"
    by (auto simp del: dropWhile_eq_Nil_conv)
  have "last (rev ?d) = hd ?d"
    by (simp add: last_rev)
  moreover have "\<not> P (hd ?d)"
    using d by (rule hd_dropWhile)
  moreover have "hd (rev ?d) = last ?d"
    by (simp add: hd_rev)
  moreover have "last ?d = last (rev ?m)"
    using d by (metis last_appendR takeWhile_dropWhile_id)
  moreover have "last (rev ?m) = hd ?m"
    by (simp add: last_rev)
  moreover have "\<not> P (hd ?m)"
    using m by (rule hd_dropWhile)
  ultimately show ?thesis
    by simp
qed

lemma strip_hd_not_space: "strip s \<noteq> [] \<Longrightarrow> \<not> isspace (hd (strip s))"
  unfolding strip_def by (rule trim_ends [THEN conjunct1])

lemma split_ws_from_first:
  "cur \<noteq> [] \<or> (s \<noteq> [] \<and> \<not> isspace (hd s)) \<Longrightarrow>
   \<exists>rest. split_ws_from cur s = (cur @ takeWhile (\<lambda>c. \<not> isspace c) s) # rest"
proof (induction s arbitrary: cur)
  case Nil
  then show ?case by simp
next
  case (Cons c s)
  show ?case
  proof (cases "isspace c")
    case True
    with Cons.prems show ?thesis by auto
  next
    case False
    then have "\<exists>rest. split_ws_from (cur @ [c]) s
                 = ((cur @ [c]) @ takeWhile (\<lambda>c. \<not> isspace c) s) # rest"
      by (intro Cons.IH) simp
    with False show ?thesis by simp
  qed
qed

lemma truncate_target_eq:
  assumes "t \<noteq> []" and "\<not> isspace (hd t)"
  shows "truncate_target t
           = Some (takeWhile (\<lambda>c. c \<noteq> HASH) (takeWhile (\<lambda>c. \<not> isspace c) t))"
proof -
  obtain rest where "split_ws_from [] t = ([] @ takeWhile (\<lambda>c. \<not> isspace c) t) # rest"
    using split_ws_from_first [of "[]" t] assms by blast
  then show ?thesis
    by (simp add: truncate_target_def split_ws_def)
qed

lemma startswith_any_iff: "startswith_any s ps \<longleftrightarrow> (\<exists>p\<in>set ps. prefix p s)"
  by (simp add: startswith_any_def startswith_def list_ex_iff)

lemma iter_relative_links_loop_eq:
  "iter_relative_links_loop raws = Some (List.map_filter spec_link_pipeline raws)"
proof (induction raws)
  case Nil
  then show ?case by simp
next
  case (Cons raw raws)
  show ?case
  proof (cases "strip raw = [] \<or> startswith_any (strip raw) excluded_prefixes")
    case True
    then have "spec_link_pipeline raw = None"
      by (auto simp: spec_link_pipeline_def startswith_any_iff)
    with True Cons.IH show ?thesis
      by simp
  next
    case False
    then have "truncate_target (strip raw)
        = Some (takeWhile (\<lambda>c. c \<noteq> HASH) (takeWhile (\<lambda>c. \<not> isspace c) (strip raw)))"
      by (intro truncate_target_eq strip_hd_not_space) simp_all
    with False Cons.IH show ?thesis
      by (simp add: spec_link_pipeline_def startswith_any_iff Let_def)
  qed
qed

lemma hash_literal: "str ''#'' = [HASH]"
  by (simp add: str_def)

lemma hash_excluded: "str ''#'' \<in> set excluded_prefixes"
  by (simp add: excluded_prefixes_def)

lemma target_survives:
  assumes "t \<noteq> []" "\<not> isspace (hd t)" "\<not> startswith_any t excluded_prefixes"
  shows "takeWhile (\<lambda>c. c \<noteq> HASH) (takeWhile (\<lambda>c. \<not> isspace c) t) \<noteq> []"
proof -
  from assms(1) obtain c cs where t: "t = c # cs"
    by (cases t) auto
  have "\<not> prefix (str ''#'') t"
    using assms(3) hash_excluded by (auto simp: startswith_any_iff)
  with t have "c \<noteq> HASH"
    by (auto simp: hash_literal)
  with t assms(2) show ?thesis
    by simp
qed

lemma pipeline_Some:
  assumes "spec_link_pipeline raw = Some target"
  shows "target \<noteq> [] \<and> (\<forall>c\<in>set target. \<not> isspace c) \<and> HASH \<notin> set target \<and>
         \<not> startswith_any target excluded_prefixes"
proof -
  let ?t = "strip raw"
  from assms have ok: "?t \<noteq> []" "\<not> (\<exists>p\<in>set excluded_prefixes. prefix p ?t)"
    and tgt: "target = takeWhile (\<lambda>c. c \<noteq> HASH) (takeWhile (\<lambda>c. \<not> isspace c) ?t)"
    and ne: "target \<noteq> []"
    by (auto simp: spec_link_pipeline_def Let_def split: if_splits)
  have nospace: "\<forall>c\<in>set target. \<not> isspace c"
    unfolding tgt by (auto dest!: set_takeWhileD)
  have nohash: "HASH \<notin> set target"
    unfolding tgt by (auto dest: set_takeWhileD)
  have "prefix target ?t"
    unfolding tgt by (meson prefix_order.order_trans takeWhile_is_prefix)
  then have "\<not> (\<exists>p\<in>set excluded_prefixes. prefix p target)"
    using ok(2) by (meson prefix_order.order_trans)
  with ne nospace nohash show ?thesis
    by (simp add: startswith_any_iff)
qed

lemma map_filter_member:
  "y \<in> set (List.map_filter f xs) \<Longrightarrow> \<exists>x\<in>set xs. f x = Some y"
  by (induction xs) (auto split: option.splits)

text \<open>
  C4. The extractor yields, for the raw matches in order, exactly what the pipeline of the
  specification yields: trim; discard if empty or starting with an excluded prefix;
  truncate at the first whitespace character, then at the first \<^verbatim>\<open>#\<close>; discard if empty.
  The \<^verbatim>\<open>IndexError\<close> of \<^verbatim>\<open>target.split()[0]\<close> never arises. A document whose only
  link is \<^verbatim>\<open>https://example.com/page\<close> yields nothing, so its link loop adds no error
  on any file system.
\<close>

theorem iter_relative_links_pipeline:
  "iter_relative_links text
     = Some (List.map_filter spec_link_pipeline (LINK_RE_findall text)) \<and>
   LINK_RE_findall (str ''[page](https://example.com/page)'')
     = [str ''https://example.com/page''] \<and>
   spec_link_pipeline (str ''https://example.com/page'') = None \<and>
   (case iter_relative_links (str ''[page](https://example.com/page)'') of
      None \<Rightarrow> None
    | Some links \<Rightarrow> check_links fs skill_dir skill_md links st) = Some st"
proof -
  have general: "iter_relative_links t
      = Some (List.map_filter spec_link_pipeline (LINK_RE_findall t))" for t
    by (simp add: iter_relative_links_def iter_relative_links_loop_eq)
  have found: "LINK_RE_findall (str ''[page](https://example.com/page)'')
      = [str ''https://example.com/page'']"
    by code_simp
  have dropped: "spec_link_pipeline (str ''https://example.com/page'') = None"
    by code_simp
  have "iter_relative_links (str ''[page](https://example.com/page)'') = Some []"
    by (simp add: general found dropped)
  with general found dropped show ?thesis
    by simp
qed

theorem iter_relative_links_pipeline_witness:
  "iter_relative_links demo_text
     = Some [str ''../../etc/passwd'', str ''resources/missing.txt'', str ''notes.md''] \<and>
   List.map_filter spec_link_pipeline (LINK_RE_findall demo_text)
     = [str ''../../etc/passwd'', str ''resources/missing.txt'', str ''notes.md'']"
proof -
  have "List.map_filter spec_link_pipeline (LINK_RE_findall demo_text)
      = [str ''../../etc/passwd'', str ''resources/missing.txt'', str ''notes.md'']"
    by code_simp
  moreover have "iter_relative_links demo_text
      = Some (List.map_filter spec_link_pipeline (LINK_RE_findall demo_text))"
    using iter_relative_links_pipeline [of demo_text] by (rule conjunct1)
  ultimately show ?thesis
    by simp
qed

text \<open>
  C10. The extractor always returns, and every target it yields is non-empty, holds no
  whitespace character and no \<^verbatim>\<open>#\<close>, and starts with none of the excluded prefixes.
  Moreover a trimmed raw match that is non-empty and starts with no excluded prefix is
  still non-empty after the two truncations: the final \<^verbatim>\<open>if not target\<close> never fires.
\<close>

theorem yielded_targets_clean:
  "(\<exists>links. iter_relative_links text = Some links \<and>
      (\<forall>target\<in>set links.
         target \<noteq> [] \<and> (\<forall>c\<in>set target. \<not> isspace c) \<and> HASH \<notin> set target \<and>
         \<not> startswith_any target excluded_prefixes)) \<and>
   (strip raw \<noteq> [] \<longrightarrow> \<not> startswith_any (strip raw) excluded_prefixes \<longrightarrow>
      (\<exists>target. truncate_target (strip raw) = Some target \<and> target \<noteq> []))"
proof -
  let ?links = "List.map_filter spec_link_pipeline (LINK_RE_findall text)"
  have returns: "iter_relative_links text = Some ?links"
    by (simp add: iter_relative_links_def iter_relative_links_loop_eq)
  have clean: "\<forall>target\<in>set ?links.
      target \<noteq> [] \<and> (\<forall>c\<in>set target. \<not> isspace c) \<and> HASH \<notin> set target \<and>
      \<not> startswith_any target excluded_prefixes"
  proof
    fix target
    assume "target \<in> set ?links"
    then obtain r where "spec_link_pipeline r = Some target"
      using map_filter_member [of target spec_link_pipeline "LINK_RE_findall text"] by auto
    then show "target \<noteq> [] \<and> (\<forall>c\<in>set target. \<not> isspace c) \<and> HASH \<notin> set target \<and>
        \<not> startswith_any target excluded_prefixes"
      by (rule pipeline_Some)
  qed
  have first: "\<exists>links. iter_relative_links text = Some links \<and>
      (\<forall>target\<in>set links.
         target \<noteq> [] \<and> (\<forall>c\<in>set target. \<not> isspace c) \<and> HASH \<notin> set target \<and>
         \<not> startswith_any target excluded_prefixes)"
    using returns clean by (intro exI [of _ ?links] conjI)
  have second: "\<exists>target. truncate_target (strip raw) = Some target \<and> target \<noteq> []"
    if ne: "strip raw \<noteq> []" and ok: "\<not> startswith_any (strip raw) excluded_prefixes"
  proof -
    have nospace: "\<not> isspace (hd (strip raw))"
      using ne by (rule strip_hd_not_space)
    have "truncate_target (strip raw)
        = Some (takeWhile (\<lambda>c. c \<noteq> HASH) (takeWhile (\<lambda>c. \<not> isspace c) (strip raw)))"
      using ne nospace by (rule truncate_target_eq)
    moreover have "takeWhile (\<lambda>c. c \<noteq> HASH) (takeWhile (\<lambda>c. \<not> isspace c) (strip raw)) \<noteq> []"
      using ne nospace ok by (rule target_survives)
    ultimately show ?thesis
      by (intro exI conjI)
  qed
  from first second show ?thesis
    by (intro conjI impI)
qed

theorem yielded_targets_clean_witness:
  "iter_relative_links demo_text
     = Some [str ''../../etc/passwd'', str ''resources/missing.txt'', str ''notes.md''] \<and>
   strip (str '' notes.md#top see'') \<noteq> [] \<and>
   \<not> startswith_any (strip (str '' notes.md#top see'')) excluded_prefixes \<and>
   (\<exists>target. truncate_target (strip (str '' notes.md#top see'')) = Some target \<and> target \<noteq> [])"
proof -
  have h1: "strip (str '' notes.md#top see'') \<noteq> []"
    by code_simp
  have h2: "\<not> startswith_any (strip (str '' notes.md#top see'')) excluded_prefixes"
    by code_simp
  have h3: "iter_relative_links demo_text
     = Some [str ''../../etc/passwd'', str ''resources/missing.txt'', str ''notes.md'']"
    by code_simp
  have "\<exists>target. truncate_target (strip (str '' notes.md#top see'')) = Some target \<and> target \<noteq> []"
    by (rule yielded_targets_clean
          [of demo_text "str '' notes.md#top see''", THEN conjunct2, rule_format, OF h1 h2])
  with h1 h2 h3 show ?thesis
    by (intro conjI)
qed

section \<open>Properties of the validation run\<close>

lemma parse_failure_reason:
  "parse_frontmatter text = (meta, Some reason) \<Longrightarrow> meta = None \<and> reason \<noteq> []"
  by (auto simp: parse_frontmatter_def Let_def start_reason_nonempty end_reason_nonempty
      split: list.splits option.splits if_splits)

lemma check_links_append:
  "check_links fs skill_dir skill_md (xs @ ys) st =
     (case check_links fs skill_dir skill_md xs st of
        None \<Rightarrow> None
      | Some st' \<Rightarrow> check_links fs skill_dir skill_md ys st')"
  by (induction xs arbitrary: st) (auto split: option.splits)

lemma relative_to_outside: "\<not> prefix root p \<Longrightarrow> relative_to p root = None"
  by (auto simp: relative_to_def)

lemma filter_dirs_none:
  "\<forall>p\<in>set ps. fs_is_dir fs p = Some False \<Longrightarrow> filter_dirs fs ps = Some []"
  by (induction ps) auto

text \<open>
  C7. When \<^verbatim>\<open>SKILL.md\<close> does not exist in a folder, the folder adds exactly the
  missing-document error and nothing else is consulted or changed; when the frontmatter of
  its document does not parse, the folder adds exactly the parser's reason against the
  document, and the name and link checks do not run.
\<close>

theorem early_exits_record_one_error:
  "(fs_exists fs (path_join skill_dir (str ''SKILL.md'')) = Some False \<longrightarrow>
      validate_skill fs skill_dir st
        = Some (st\<lparr>errors := errors st @
                   [msg_missing_skill_md (path_join skill_dir (str ''SKILL.md''))]\<rparr>)) \<and>
   (fs_exists fs (path_join skill_dir (str ''SKILL.md'')) = Some True \<longrightarrow>
    fs_read_text fs (path_join skill_dir (str ''SKILL.md'')) = Some text \<longrightarrow>
    parse_frontmatter text = (meta, Some reason) \<longrightarrow>
      validate_skill fs skill_dir st
        = Some (st\<lparr>errors := errors st @
                   [msg_frontmatter (path_join skill_dir (str ''SKILL.md'')) reason]\<rparr>))"
proof (intro conjI impI)
  assume "fs_exists fs (path_join skill_dir (str ''SKILL.md'')) = Some False"
  then show "validate_skill fs skill_dir st
      = Some (st\<lparr>errors := errors st @
                 [msg_missing_skill_md (path_join skill_dir (str ''SKILL.md''))]\<rparr>)"
    by (simp add: validate_skill_def add_error_def)
next
  assume found: "fs_exists fs (path_join skill_dir (str ''SKILL.md'')) = Some True"
    and read: "fs_read_text fs (path_join skill_dir (str ''SKILL.md'')) = Some text"
    and failed: "parse_frontmatter text = (meta, Some reason)"
  from failed have "reason \<noteq> []"
    by (simp add: parse_failure_reason)
  with found read failed show "validate_skill fs skill_dir st
      = Some (st\<lparr>errors := errors st @
                 [msg_frontmatter (path_join skill_dir (str ''SKILL.md'')) reason]\<rparr>)"
    by (simp add: validate_skill_def add_error_def)
qed

theorem early_exits_record_one_error_witness:
  "validate_skill (tree_fs [repo, skills, skills @ [str ''empty'']] []) (skills @ [str ''empty''])
     \<lparr>errors = [], seen_names = []\<rparr>
     = Some \<lparr>errors = [str ''/repo/skills/empty/SKILL.md: missing SKILL.md''], seen_names = []\<rparr> \<and>
   validate_skill
     (tree_fs [repo, skills, skills @ [str ''bad'']]
        [(skills @ [str ''bad'', str ''SKILL.md''], str ''name: bad'')])
     (skills @ [str ''bad'']) \<lparr>errors = [], seen_names = []\<rparr>
     = Some \<lparr>errors = [str ''/repo/skills/bad/SKILL.md: missing frontmatter start''],
             seen_names = []\<rparr>"
proof -
  let ?fs1 = "tree_fs [repo, skills, skills @ [str ''empty'']] []"
  let ?fs2 = "tree_fs [repo, skills, skills @ [str ''bad'']]
        [(skills @ [str ''bad'', str ''SKILL.md''], str ''name: bad'')]"
  let ?st = "\<lparr>errors = [], seen_names = []\<rparr>"
  have a1: "fs_exists ?fs1 (path_join (skills @ [str ''empty'']) (str ''SKILL.md'')) = Some False"
    by code_simp
  have m1: "?st\<lparr>errors := errors ?st @
        [msg_missing_skill_md (path_join (skills @ [str ''empty'']) (str ''SKILL.md''))]\<rparr>
      = \<lparr>errors = [str ''/repo/skills/empty/SKILL.md: missing SKILL.md''], seen_names = []\<rparr>"
    by code_simp
  have b1: "fs_exists ?fs2 (path_join (skills @ [str ''bad'']) (str ''SKILL.md'')) = Some True"
    by code_simp
  have b2: "fs_read_text ?fs2 (path_join (skills @ [str ''bad'']) (str ''SKILL.md''))
      = Some (str ''name: bad'')"
    by code_simp
  have b3: "parse_frontmatter (str ''name: bad'') = (None, Some (str ''missing frontmatter start''))"
    by code_simp
  have m2: "?st\<lparr>errors := errors ?st @
        [msg_frontmatter (path_join (skills @ [str ''bad'']) (str ''SKILL.md''))
           (str ''missing frontmatter start'')]\<rparr>
      = \<lparr>errors = [str ''/repo/skills/bad/SKILL.md: missing frontmatter start''],
         seen_names = []\<rparr>"
    by code_simp
  note t1 = early_exits_record_one_error [THEN conjunct1, rule_format, OF a1, of ?st]
  note t2 = early_exits_record_one_error [THEN conjunct2, rule_format, OF b1 b2 b3, of ?st]
  from t1 t2 show ?thesis
    unfolding m1 m2 by (intro conjI)
qed

text \<open>
  C8. The output and the exit status are a function of the accumulated list alone: a
  non-empty list prints the header and one \<^verbatim>\<open>- <message>\<close> line per error, in order,
  with status 1; the empty list prints the pass line with status 0. When the skills
  directory is absent the list is exactly the one error "skills/ directory not found" and
  the status is 1; when it exists and none of its entries is a directory the run passes.
\<close>

theorem main_verdict:
  "main fs repo_root = map_option report (main_errors fs repo_root) \<and>
   (errs \<noteq> [] \<longrightarrow>
      report errs = (str ''Skill validation failed:'' # map (\<lambda>err. str ''- '' @ err) errs, 1)) \<and>
   report [] = ([str ''Skill validation passed.''], 0) \<and>
   (fs_is_dir fs (path_join repo_root (str ''skills'')) = Some False \<longrightarrow>
      main_errors fs repo_root = Some [str ''skills/ directory not found''] \<and>
      main fs repo_root
        = Some ([str ''Skill validation failed:'', str ''- '' @ str ''skills/ directory not found''],
                1)) \<and>
   (fs_is_dir fs (path_join repo_root (str ''skills'')) = Some True \<longrightarrow>
    fs_iterdir fs (path_join repo_root (str ''skills'')) = Some names \<longrightarrow>
    (\<forall>n\<in>set names. fs_is_dir fs (path_join repo_root (str ''skills'') @ [n]) = Some False) \<longrightarrow>
      main_errors fs repo_root = Some [] \<and>
      main fs repo_root = Some ([str ''Skill validation passed.''], 0))"
proof (intro conjI impI)
  show "main fs repo_root = map_option report (main_errors fs repo_root)"
    by (simp add: main_def)
next
  assume "errs \<noteq> []"
  then show "report errs
      = (str ''Skill validation failed:'' # map (\<lambda>err. str ''- '' @ err) errs, 1)"
    by (simp add: report_def)
next
  show "report [] = ([str ''Skill validation passed.''], 0)"
    by (simp add: report_def)
next
  assume absent: "fs_is_dir fs (path_join repo_root (str ''skills'')) = Some False"
  then show errs: "main_errors fs repo_root = Some [str ''skills/ directory not found'']"
    by (simp add: main_errors_def)
  then show "main fs repo_root
      = Some ([str ''Skill validation failed:'', str ''- '' @ str ''skills/ directory not found''],
              1)"
    by (simp add: main_def report_def)
next
  assume present: "fs_is_dir fs (path_join repo_root (str ''skills'')) = Some True"
    and listed: "fs_iterdir fs (path_join repo_root (str ''skills'')) = Some names"
    and files: "\<forall>n\<in>set names. fs_is_dir fs (path_join repo_root (str ''skills'') @ [n]) = Some False"
  from files have "filter_dirs fs (map (\<lambda>n. path_join repo_root (str ''skills'') @ [n]) names)
      = Some []"
    by (intro filter_dirs_none) simp
  with present listed show errs: "main_errors fs repo_root = Some []"
    by (simp add: main_errors_def)
  then show "main fs repo_root = Some ([str ''Skill validation passed.''], 0)"
    by (simp add: main_def report_def)
qed

theorem main_verdict_witness:
  "main (tree_fs [repo] []) repo
     = Some ([str ''Skill validation failed:'', str ''- skills/ directory not found''], 1) \<and>
   main (tree_fs [repo, skills] [(skills @ [str ''README.md''], str ''notes'')]) repo
     = Some ([str ''Skill validation passed.''], 0) \<and>
   report [str ''x''] = ([str ''Skill validation failed:'', str ''- x''], 1)"
proof -
  let ?fs1 = "tree_fs [repo] []"
  let ?fs2 = "tree_fs [repo, skills] [(skills @ [str ''README.md''], str ''notes'')]"
  have a: "fs_is_dir ?fs1 (path_join repo (str ''skills'')) = Some False"
    by code_simp
  have b1: "fs_is_dir ?fs2 (path_join repo (str ''skills'')) = Some True"
    by code_simp
  have b2: "fs_iterdir ?fs2 (path_join repo (str ''skills'')) = Some [str ''README.md'']"
    by code_simp
  have b3: "\<forall>n\<in>set [str ''README.md''].
      fs_is_dir ?fs2 (path_join repo (str ''skills'') @ [n]) = Some False"
    by code_simp
  have c: "[str ''x''] \<noteq> []"
    by simp
  have lit: "str ''- '' @ str ''skills/ directory not found'' = str ''- skills/ directory not found''"
    by code_simp
  have lit2: "map (\<lambda>err. str ''- '' @ err) [str ''x''] = [str ''- x'']"
    by code_simp
  note t = main_verdict [of ?fs1 repo "[str ''x'']"]
  note t1 = t [THEN conjunct2, THEN conjunct2, THEN conjunct2, THEN conjunct1, rule_format, OF a,
      THEN conjunct2]
  note t2 = main_verdict [of ?fs2 repo "[str ''x'']" "[str ''README.md'']", THEN conjunct2,
      THEN conjunct2, THEN conjunct2, THEN conjunct2, THEN mp, OF b1, THEN mp, OF b2, THEN mp,
      OF b3, THEN conjunct2]
  note t3 = t [THEN conjunct2, THEN conjunct1, rule_format, OF c]
  from t1 t2 t3 show ?thesis
    unfolding lit lit2 by (intro conjI)
qed

lemma escapes_ne_missing: "msg_link_escapes skill_md link \<noteq> msg_missing_link skill_md link'"
  by (simp add: msg_link_escapes_def msg_missing_link_def str_def)

lemma mismatch_ne_pattern:
  "msg_name_mismatch skill_md name folder \<noteq> msg_name_pattern skill_md name"
  by (simp add: msg_name_mismatch_def msg_name_pattern_def str_def)

lemma mismatch_ne_duplicate:
  "msg_name_mismatch skill_md name folder \<noteq> msg_duplicate_name skill_md name' first_seen"
  by (simp add: msg_name_mismatch_def msg_duplicate_name_def str_def)

lemma check_link_escaping:
  assumes "fs_resolve fs (path_join skill_dir link) = Some target_path"
    and "fs_resolve fs skill_dir = Some root"
    and "\<not> prefix root target_path"
  shows "check_link fs skill_dir skill_md link st
           = Some (st\<lparr>errors := errors st @ [msg_link_escapes skill_md link]\<rparr>)"
  using assms by (simp add: check_link_def relative_to_outside add_error_def)

text \<open>
  C1. A yielded link whose resolved target is not the resolved folder or below it adds
  exactly the one error "link escapes skill dir" with the link as written, wherever it
  stands among the links of the document; the existence of the target is not consulted,
  and the message is not a "missing link target" message. The links are those that
  \<^verbatim>\<open>iter_relative_links\<close> yields from the document of the folder: when the document
  exists, is read and parses, \<^verbatim>\<open>validate_skill\<close> runs the name checks, then the checks
  of the links before the escaping one, adds this one error, and goes on with the links
  after it.
\<close>

theorem escaping_link_one_error:
  assumes "fs_resolve fs (path_join skill_dir link) = Some target_path"
    and "fs_resolve fs skill_dir = Some root"
    and "\<not> prefix root target_path"
  shows "check_link fs skill_dir skill_md link st
           = Some (st\<lparr>errors := errors st @ [msg_link_escapes skill_md link]\<rparr>) \<and>
         check_links fs skill_dir skill_md (before @ link # after) st
           = (case check_links fs skill_dir skill_md before st of
                None \<Rightarrow> None
              | Some st1 \<Rightarrow>
                  check_links fs skill_dir skill_md after
                    (st1\<lparr>errors := errors st1 @ [msg_link_escapes skill_md link]\<rparr>)) \<and>
         msg_link_escapes skill_md link \<noteq> msg_missing_link skill_md link \<and>
         (fs_exists fs (path_join skill_dir (str ''SKILL.md'')) = Some True \<longrightarrow>
          fs_read_text fs (path_join skill_dir (str ''SKILL.md'')) = Some doc \<longrightarrow>
          parse_frontmatter doc = (Some meta, None) \<longrightarrow>
          iter_relative_links doc = Some (before @ link # after) \<longrightarrow>
            validate_skill fs skill_dir st
              = (case check_links fs skill_dir (path_join skill_dir (str ''SKILL.md'')) before
                       (check_name skill_dir (path_join skill_dir (str ''SKILL.md''))
                          (Some meta) st) of
                   None \<Rightarrow> None
                 | Some st1 \<Rightarrow>
                     check_links fs skill_dir (path_join skill_dir (str ''SKILL.md'')) after
                       (st1\<lparr>errors := errors st1 @
                          [msg_link_escapes (path_join skill_dir (str ''SKILL.md'')) link]\<rparr>)))"
proof -
  have step: "check_link fs skill_dir md link s
      = Some (s\<lparr>errors := errors s @ [msg_link_escapes md link]\<rparr>)" for s md
    using assms by (rule check_link_escaping)
  have loop: "check_links fs skill_dir md (before @ link # after) s
      = (case check_links fs skill_dir md before s of
           None \<Rightarrow> None
         | Some st1 \<Rightarrow>
             check_links fs skill_dir md after
               (st1\<lparr>errors := errors st1 @ [msg_link_escapes md link]\<rparr>))" for s md
    by (simp add: check_links_append step split: option.split)
  have folder: "validate_skill fs skill_dir st
      = (case check_links fs skill_dir (path_join skill_dir (str ''SKILL.md'')) before
               (check_name skill_dir (path_join skill_dir (str ''SKILL.md'')) (Some meta) st) of
           None \<Rightarrow> None
         | Some st1 \<Rightarrow>
             check_links fs skill_dir (path_join skill_dir (str ''SKILL.md'')) after
               (st1\<lparr>errors := errors st1 @
                  [msg_link_escapes (path_join skill_dir (str ''SKILL.md'')) link]\<rparr>))"
    if found: "fs_exists fs (path_join skill_dir (str ''SKILL.md'')) = Some True"
      and read: "fs_read_text fs (path_join skill_dir (str ''SKILL.md'')) = Some doc"
      and parsed: "parse_frontmatter doc = (Some meta, None)"
      and yielded: "iter_relative_links doc = Some (before @ link # after)"
  proof -
    have "validate_skill fs skill_dir st
        = check_links fs skill_dir (path_join skill_dir (str ''SKILL.md''))
            (before @ link # after)
            (check_name skill_dir (path_join skill_dir (str ''SKILL.md'')) (Some meta) st)"
      using found read parsed yielded by (simp add: validate_skill_def Let_def)
    then show ?thesis
      by (simp only: loop)
  qed
  from step [of skill_md st] loop [of skill_md st] escapes_ne_missing folder show ?thesis
    by (intro conjI impI)
qed

theorem escaping_link_one_error_witness:
  "iter_relative_links demo_text
     = Some ([] @ str ''../../etc/passwd'' # [str ''resources/missing.txt'', str ''notes.md'']) \<and>
   fs_resolve demo_fs (path_join (skills @ [str ''demo'']) (str ''../../etc/passwd''))
     = Some [str ''/'', str ''repo'', str ''etc'', str ''passwd''] \<and>
   fs_resolve demo_fs (skills @ [str ''demo''])
     = Some [str ''/'', str ''repo'', str ''skills'', str ''demo''] \<and>
   check_link demo_fs (skills @ [str ''demo'']) (skills @ [str ''demo'', str ''SKILL.md''])
     (str ''../../etc/passwd'') \<lparr>errors = [], seen_names = []\<rparr>
     = Some \<lparr>errors = [str ''/repo/skills/demo/SKILL.md: link escapes skill dir: ../../etc/passwd''],
             seen_names = []\<rparr> \<and>
   validate_skill demo_fs (skills @ [str ''demo'']) \<lparr>errors = [], seen_names = []\<rparr>
     = Some \<lparr>errors =
               [msg_name_mismatch (skills @ [str ''demo'', str ''SKILL.md''])
                  (str ''other-skill'') (str ''demo''),
                str ''/repo/skills/demo/SKILL.md: link escapes skill dir: ../../etc/passwd'',
                str ''/repo/skills/demo/SKILL.md: missing link target: resources/missing.txt''],
             seen_names = [(str ''other-skill'', str ''/repo/skills/demo/SKILL.md'')]\<rparr> \<and>
   main demo_fs repo
     = Some ([str ''Skill validation failed:'',
              str ''- '' @ msg_name_mismatch (skills @ [str ''demo'', str ''SKILL.md''])
                (str ''other-skill'') (str ''demo''),
              str ''- /repo/skills/demo/SKILL.md: link escapes skill dir: ../../etc/passwd'',
              str ''- /repo/skills/demo/SKILL.md: missing link target: resources/missing.txt''],
             1)"
proof -
  let ?st = "\<lparr>errors = [], seen_names = []\<rparr>"
  let ?dir = "skills @ [str ''demo'']"
  let ?after = "[str ''resources/missing.txt'', str ''notes.md'']"
  let ?meta = "[(str ''name'', str ''other-skill'')]"
  have h1: "fs_resolve demo_fs (path_join ?dir (str ''../../etc/passwd''))
      = Some [str ''/'', str ''repo'', str ''etc'', str ''passwd'']"
    by code_simp
  have h2: "fs_resolve demo_fs ?dir = Some [str ''/'', str ''repo'', str ''skills'', str ''demo'']"
    by code_simp
  have h3: "\<not> prefix [str ''/'', str ''repo'', str ''skills'', str ''demo'']
      [str ''/'', str ''repo'', str ''etc'', str ''passwd'']"
    by code_simp
  have h4: "fs_exists demo_fs (path_join ?dir (str ''SKILL.md'')) = Some True"
    by code_simp
  have h5: "fs_read_text demo_fs (path_join ?dir (str ''SKILL.md'')) = Some demo_text"
    by code_simp
  have h6: "parse_frontmatter demo_text = (Some ?meta, None)"
    by code_simp
  have h7: "iter_relative_links demo_text = Some ([] @ str ''../../etc/passwd'' # ?after)"
    by code_simp
  have m: "?st\<lparr>errors := errors ?st @
        [msg_link_escapes (skills @ [str ''demo'', str ''SKILL.md'']) (str ''../../etc/passwd'')]\<rparr>
      = \<lparr>errors = [str ''/repo/skills/demo/SKILL.md: link escapes skill dir: ../../etc/passwd''],
         seen_names = []\<rparr>"
    by code_simp
  have rest: "(case check_links demo_fs ?dir (path_join ?dir (str ''SKILL.md'')) []
                 (check_name ?dir (path_join ?dir (str ''SKILL.md'')) (Some ?meta) ?st) of
            None \<Rightarrow> None
          | Some st1 \<Rightarrow>
              check_links demo_fs ?dir (path_join ?dir (str ''SKILL.md'')) ?after
                (st1\<lparr>errors := errors st1 @
                   [msg_link_escapes (path_join ?dir (str ''SKILL.md''))
                      (str ''../../etc/passwd'')]\<rparr>))
      = Some \<lparr>errors =
               [msg_name_mismatch (skills @ [str ''demo'', str ''SKILL.md''])
                  (str ''other-skill'') (str ''demo''),
                str ''/repo/skills/demo/SKILL.md: link escapes skill dir: ../../etc/passwd'',
                str ''/repo/skills/demo/SKILL.md: missing link target: resources/missing.txt''],
             seen_names = [(str ''other-skill'', str ''/repo/skills/demo/SKILL.md'')]\<rparr>"
    by code_simp
  have run: "main demo_fs repo
     = Some ([str ''Skill validation failed:'',
              str ''- '' @ msg_name_mismatch (skills @ [str ''demo'', str ''SKILL.md''])
                (str ''other-skill'') (str ''demo''),
              str ''- /repo/skills/demo/SKILL.md: link escapes skill dir: ../../etc/passwd'',
              str ''- /repo/skills/demo/SKILL.md: missing link target: resources/missing.txt''],
             1)"
    by code_simp
  note t = escaping_link_one_error [OF h1 h2 h3]
  note t1 = t [THEN conjunct1, of "skills @ [str ''demo'', str ''SKILL.md'']" ?st]
  note t2 = t [THEN conjunct2, THEN conjunct2, THEN conjunct2, THEN mp, OF h4, THEN mp, OF h5,
      THEN mp, OF h6, THEN mp, OF h7, of ?st]
  from h7 h1 h2 t1 t2 run show ?thesis
    unfolding m rest by (intro conjI)
qed

text \<open>
  C6. When the frontmatter parses and its name is non-empty but is not the folder's name,
  the name checks add the mismatch error once and go on: the pattern error follows when
  the name does not match \<^verbatim>\<open>^[a-z0-9-]{1,64}$\<close>, then the duplicate error when the name is
  registered, and otherwise the name is registered. The other two messages differ from the
  mismatch message, and the folder's link checks run on the resulting state.
\<close>

theorem name_mismatch_not_terminal:
  assumes "parse_frontmatter text = (Some meta, None)"
    and "map_of meta (str ''name'') = Some name"
    and "name \<noteq> []"
    and "name \<noteq> path_name skill_dir"
    and "fs_exists fs (path_join skill_dir (str ''SKILL.md'')) = Some True"
    and "fs_read_text fs (path_join skill_dir (str ''SKILL.md'')) = Some text"
  shows "check_name skill_dir skill_md (Some meta) st
           = st\<lparr>errors := errors st @
                   [msg_name_mismatch skill_md name (path_name skill_dir)] @
                   (if NAME_RE_match name then [] else [msg_name_pattern skill_md name]) @
                   (case map_of (seen_names st) name of
                      None \<Rightarrow> []
                    | Some first_seen \<Rightarrow> [msg_duplicate_name skill_md name first_seen]),
                 seen_names :=
                   (case map_of (seen_names st) name of
                      None \<Rightarrow> AList.update name (path_str skill_md) (seen_names st)
                    | Some first_seen \<Rightarrow> seen_names st)\<rparr> \<and>
         msg_name_mismatch skill_md name (path_name skill_dir)
           \<noteq> msg_name_pattern skill_md name \<and>
         msg_name_mismatch skill_md name (path_name skill_dir)
           \<noteq> msg_duplicate_name skill_md name first \<and>
         validate_skill fs skill_dir st
           = (case iter_relative_links text of
                None \<Rightarrow> None
              | Some links \<Rightarrow>
                  check_links fs skill_dir (path_join skill_dir (str ''SKILL.md'')) links
                    (check_name skill_dir (path_join skill_dir (str ''SKILL.md'')) (Some meta) st))"
proof -
  have checks: "check_name skill_dir skill_md (Some meta) st
           = st\<lparr>errors := errors st @
                   [msg_name_mismatch skill_md name (path_name skill_dir)] @
                   (if NAME_RE_match name then [] else [msg_name_pattern skill_md name]) @
                   (case map_of (seen_names st) name of
                      None \<Rightarrow> []
                    | Some first_seen \<Rightarrow> [msg_duplicate_name skill_md name first_seen]),
                 seen_names :=
                   (case map_of (seen_names st) name of
                      None \<Rightarrow> AList.update name (path_str skill_md) (seen_names st)
                    | Some first_seen \<Rightarrow> seen_names st)\<rparr>"
    using assms(2-4)
    by (simp add: check_name_def Let_def add_error_def split: option.split)
  have folder: "validate_skill fs skill_dir st
           = (case iter_relative_links text of
                None \<Rightarrow> None
              | Some links \<Rightarrow>
                  check_links fs skill_dir (path_join skill_dir (str ''SKILL.md'')) links
                    (check_name skill_dir (path_join skill_dir (str ''SKILL.md'')) (Some meta) st))"
    using assms(1,5,6) by (simp add: validate_skill_def Let_def)
  from checks mismatch_ne_pattern mismatch_ne_duplicate folder show ?thesis
    by (intro conjI)
qed

theorem name_mismatch_not_terminal_witness:
  "parse_frontmatter demo_text = (Some [(str ''name'', str ''other-skill'')], None) \<and>
   str ''other-skill'' \<noteq> path_name (skills @ [str ''demo'']) \<and>
   check_name (skills @ [str ''demo'']) (skills @ [str ''demo'', str ''SKILL.md''])
     (Some [(str ''name'', str ''other-skill'')]) \<lparr>errors = [], seen_names = []\<rparr>
     = \<lparr>errors = [str ''/repo/skills/demo/SKILL.md: name '' @ [QUOTE] @ str ''other-skill'' @
                    [QUOTE] @ str '' does not match folder '' @ [QUOTE] @ str ''demo'' @ [QUOTE]],
        seen_names = [(str ''other-skill'', str ''/repo/skills/demo/SKILL.md'')]\<rparr>"
proof -
  let ?st = "\<lparr>errors = [], seen_names = []\<rparr>"
  let ?dir = "skills @ [str ''demo'']"
  let ?md = "skills @ [str ''demo'', str ''SKILL.md'']"
  let ?meta = "[(str ''name'', str ''other-skill'')]"
  have h1: "parse_frontmatter demo_text = (Some ?meta, None)"
    by code_simp
  have h2: "map_of ?meta (str ''name'') = Some (str ''other-skill'')"
    by code_simp
  have h3: "str ''other-skill'' \<noteq> []"
    by code_simp
  have h4: "str ''other-skill'' \<noteq> path_name ?dir"
    by code_simp
  have h5: "fs_exists demo_fs (path_join ?dir (str ''SKILL.md'')) = Some True"
    by code_simp
  have h6: "fs_read_text demo_fs (path_join ?dir (str ''SKILL.md'')) = Some demo_text"
    by code_simp
  have m: "?st\<lparr>errors := errors ?st @
                   [msg_name_mismatch ?md (str ''other-skill'') (path_name ?dir)] @
                   (if NAME_RE_match (str ''other-skill'') then []
                    else [msg_name_pattern ?md (str ''other-skill'')]) @
                   (case map_of (seen_names ?st) (str ''other-skill'') of
                      None \<Rightarrow> []
                    | Some first_seen \<Rightarrow>
                        [msg_duplicate_name ?md (str ''other-skill'') first_seen]),
                 seen_names :=
                   (case map_of (seen_names ?st) (str ''other-skill'') of
                      None \<Rightarrow> AList.update (str ''other-skill'') (path_str ?md) (seen_names ?st)
                    | Some first_seen \<Rightarrow> seen_names ?st)\<rparr>
     = \<lparr>errors = [str ''/repo/skills/demo/SKILL.md: name '' @ [QUOTE] @ str ''other-skill'' @
                    [QUOTE] @ str '' does not match folder '' @ [QUOTE] @ str ''demo'' @ [QUOTE]],
        seen_names = [(str ''other-skill'', str ''/repo/skills/demo/SKILL.md'')]\<rparr>"
    by code_simp
  note t = name_mismatch_not_terminal [OF h1 h2 h3 h4 h5 h6, THEN conjunct1, of ?md ?st]
  from h1 h4 t show ?thesis
    unfolding m by (intro conjI)
qed

lemma parse_frontmatter_shape:
  "(\<exists>data. parse_frontmatter text = (Some data, None)) \<or>
   (\<exists>reason. reason \<noteq> [] \<and> parse_frontmatter text = (None, Some reason))"
  by (simp add: parse_frontmatter_def Let_def start_reason_nonempty end_reason_nonempty
      split: list.split option.split)

lemma pattern_ne_duplicate:
  "msg_name_pattern skill_md name \<noteq> msg_duplicate_name skill_md name' first_seen"
  by (simp add: msg_name_pattern_def msg_duplicate_name_def str_def)

lemma check_link_seen:
  "check_link fs skill_dir skill_md link st = Some st' \<Longrightarrow> seen_names st' = seen_names st"
  by (auto simp: check_link_def add_error_def split: option.splits if_splits)

lemma check_links_seen:
  "check_links fs skill_dir skill_md links st = Some st' \<Longrightarrow> seen_names st' = seen_names st"
proof (induction links arbitrary: st)
  case Nil
  then show ?case by simp
next
  case (Cons link links)
  then obtain st1 where step: "check_link fs skill_dir skill_md link st = Some st1"
    and rest: "check_links fs skill_dir skill_md links st1 = Some st'"
    by (auto split: option.splits)
  from rest have "seen_names st' = seen_names st1"
    by (rule Cons.IH)
  with step show ?case
    by (simp add: check_link_seen)
qed

lemma check_name_seen:
  "seen_names (check_name skill_dir skill_md (Some meta) st) =
     (case map_of meta (str ''name'') of
        None \<Rightarrow> seen_names st
      | Some name \<Rightarrow>
          if name = [] then seen_names st
          else (case map_of (seen_names st) name of
                  None \<Rightarrow> AList.update name (path_str skill_md) (seen_names st)
                | Some first_seen \<Rightarrow> seen_names st))"
  by (simp add: check_name_def Let_def add_error_def split: option.split)

lemma validate_skill_seen:
  assumes "validate_skill fs skill_dir st = Some st'"
  shows "seen_names st' =
     (case declared_name fs skill_dir of
        None \<Rightarrow> seen_names st
      | Some name \<Rightarrow>
          (case map_of (seen_names st) name of
             None \<Rightarrow>
               AList.update name (path_str (path_join skill_dir (str ''SKILL.md''))) (seen_names st)
           | Some first_seen \<Rightarrow> seen_names st))"
proof -
  let ?md = "path_join skill_dir (str ''SKILL.md'')"
  from assms obtain found where ex: "fs_exists fs ?md = Some found"
    by (auto simp: validate_skill_def Let_def split: option.splits)
  show ?thesis
  proof (cases found)
    case False
    with ex assms show ?thesis
      by (auto simp: validate_skill_def declared_name_def Let_def add_error_def)
  next
    case True
    with ex assms obtain doc where rd: "fs_read_text fs ?md = Some doc"
      by (auto simp: validate_skill_def Let_def split: option.splits)
    from parse_frontmatter_shape [of doc] show ?thesis
    proof (elim disjE exE conjE)
      fix data
      assume ok: "parse_frontmatter doc = (Some data, None)"
      with ex True rd assms obtain links where
        "check_links fs skill_dir ?md links (check_name skill_dir ?md (Some data) st) = Some st'"
        by (auto simp: validate_skill_def Let_def split: option.splits)
      then have "seen_names st' = seen_names (check_name skill_dir ?md (Some data) st)"
        by (rule check_links_seen)
      with ex True rd ok show ?thesis
        by (simp add: check_name_seen declared_name_def Let_def split: option.split)
    next
      fix reason
      assume "reason \<noteq> []" and "parse_frontmatter doc = (None, Some reason)"
      with ex True rd assms show ?thesis
        by (auto simp: validate_skill_def declared_name_def Let_def add_error_def)
    qed
  qed
qed

lemma validate_skills_lookup:
  "validate_skills fs dirs st = Some st' \<Longrightarrow>
   map_of (seen_names st') name =
     (case map_of (seen_names st) name of
        Some first_seen \<Rightarrow> Some first_seen
      | None \<Rightarrow>
          map_option (\<lambda>d. path_str (path_join d (str ''SKILL.md'')))
            (find (\<lambda>d. declared_name fs d = Some name) dirs))"
proof (induction dirs arbitrary: st)
  case Nil
  then show ?case by (simp split: option.split)
next
  case (Cons d dirs)
  then obtain st1 where step: "validate_skill fs d st = Some st1"
    and rest: "validate_skills fs dirs st1 = Some st'"
    by (auto split: option.splits)
  note IH = Cons.IH [OF rest]
  note seen1 = validate_skill_seen [OF step]
  show ?case
  proof (cases "declared_name fs d")
    case None
    with IH seen1 show ?thesis
      by (simp split: option.split)
  next
    case (Some n)
    show ?thesis
    proof (cases "map_of (seen_names st) n")
      case None
      with Some seen1 have "map_of (seen_names st1)
          = (map_of (seen_names st))(n \<mapsto> path_str (path_join d (str ''SKILL.md'')))"
        by (simp add: update_conv')
      with IH Some None show ?thesis
        by (auto split: option.split)
    next
      case (Some first_seen)
      with \<open>declared_name fs d = Some n\<close> seen1 have "seen_names st1 = seen_names st"
        by simp
      with IH Some \<open>declared_name fs d = Some n\<close> show ?thesis
        by (auto split: option.split)
    qed
  qed
qed

text \<open>
  C5 (as amended). Let a folder declare a non-empty name that a folder processed before
  it in the run has declared. Then the registry holds for that name the document path
  of the first folder, in processing order, that declared it; the name checks of the later
  folder add exactly one duplicate-name error, after the mismatch and pattern errors if
  any (which are different messages), and its message names that first document; and the
  folder leaves the registry as it was. \<^verbatim>\<open>main\<close> processes the folders in sorted order.
\<close>

theorem duplicate_name_first_sighting:
  assumes "validate_skills fs before \<lparr>errors = [], seen_names = []\<rparr> = Some st1"
    and "find (\<lambda>d. declared_name fs d = Some name) before = Some first_dir"
    and "fs_exists fs (path_join skill_dir (str ''SKILL.md'')) = Some True"
    and "fs_read_text fs (path_join skill_dir (str ''SKILL.md'')) = Some text"
    and "parse_frontmatter text = (Some meta, None)"
    and "map_of meta (str ''name'') = Some name"
    and "name \<noteq> []"
  shows "map_of (seen_names st1) name
           = Some (path_str (path_join first_dir (str ''SKILL.md''))) \<and>
         check_name skill_dir (path_join skill_dir (str ''SKILL.md'')) (Some meta) st1
           = st1\<lparr>errors := errors st1 @
                   (if name \<noteq> path_name skill_dir
                    then [msg_name_mismatch (path_join skill_dir (str ''SKILL.md'')) name
                            (path_name skill_dir)]
                    else []) @
                   (if NAME_RE_match name then []
                    else [msg_name_pattern (path_join skill_dir (str ''SKILL.md'')) name]) @
                   [msg_duplicate_name (path_join skill_dir (str ''SKILL.md'')) name
                      (path_str (path_join first_dir (str ''SKILL.md'')))]\<rparr> \<and>
         validate_skill fs skill_dir st1
           = (case iter_relative_links text of
                None \<Rightarrow> None
              | Some links \<Rightarrow>
                  check_links fs skill_dir (path_join skill_dir (str ''SKILL.md'')) links
                    (check_name skill_dir (path_join skill_dir (str ''SKILL.md'')) (Some meta) st1)) \<and>
         (validate_skill fs skill_dir st1 = Some st2 \<longrightarrow> seen_names st2 = seen_names st1) \<and>
         msg_name_mismatch (path_join skill_dir (str ''SKILL.md'')) name (path_name skill_dir)
           \<noteq> msg_duplicate_name (path_join skill_dir (str ''SKILL.md'')) name
               (path_str (path_join first_dir (str ''SKILL.md''))) \<and>
         msg_name_pattern (path_join skill_dir (str ''SKILL.md'')) name
           \<noteq> msg_duplicate_name (path_join skill_dir (str ''SKILL.md'')) name
               (path_str (path_join first_dir (str ''SKILL.md''))) \<and>
         main_errors fs repo_root
           = (case fs_is_dir fs (path_join repo_root (str ''skills'')) of
                None \<Rightarrow> None
              | Some d \<Rightarrow>
                  if \<not> d then Some [str ''skills/ directory not found'']
                  else (case fs_iterdir fs (path_join repo_root (str ''skills'')) of
                          None \<Rightarrow> None
                        | Some names \<Rightarrow>
                            (case filter_dirs fs
                                    (map (\<lambda>n. path_join repo_root (str ''skills'') @ [n]) names) of
                               None \<Rightarrow> None
                             | Some dirs \<Rightarrow>
                                 map_option errors
                                   (validate_skills fs (sort dirs)
                                      \<lparr>errors = [], seen_names = []\<rparr>))))"
proof -
  let ?md = "path_join skill_dir (str ''SKILL.md'')"
  let ?first = "path_str (path_join first_dir (str ''SKILL.md''))"
  have registered: "map_of (seen_names st1) name = Some ?first"
    using validate_skills_lookup [OF assms(1), of name] assms(2) by simp
  have checks: "check_name skill_dir ?md (Some meta) st1
           = st1\<lparr>errors := errors st1 @
                   (if name \<noteq> path_name skill_dir
                    then [msg_name_mismatch ?md name (path_name skill_dir)] else []) @
                   (if NAME_RE_match name then [] else [msg_name_pattern ?md name]) @
                   [msg_duplicate_name ?md name ?first]\<rparr>"
    using assms(6,7) registered
    by (auto simp: check_name_def Let_def add_error_def)
  have folder: "validate_skill fs skill_dir st1
           = (case iter_relative_links text of
                None \<Rightarrow> None
              | Some links \<Rightarrow>
                  check_links fs skill_dir ?md links (check_name skill_dir ?md (Some meta) st1))"
    using assms(3,4,5) by (simp add: validate_skill_def Let_def)
  have declared: "declared_name fs skill_dir = Some name"
    using assms(3-7) by (simp add: declared_name_def Let_def)
  have kept: "validate_skill fs skill_dir st1 = Some st2 \<longrightarrow> seen_names st2 = seen_names st1"
  proof
    assume "validate_skill fs skill_dir st1 = Some st2"
    then show "seen_names st2 = seen_names st1"
      using validate_skill_seen [of fs skill_dir st1 st2] declared registered by simp
  qed
  have order: "main_errors fs repo_root
           = (case fs_is_dir fs (path_join repo_root (str ''skills'')) of
                None \<Rightarrow> None
              | Some d \<Rightarrow>
                  if \<not> d then Some [str ''skills/ directory not found'']
                  else (case fs_iterdir fs (path_join repo_root (str ''skills'')) of
                          None \<Rightarrow> None
                        | Some names \<Rightarrow>
                            (case filter_dirs fs
                                    (map (\<lambda>n. path_join repo_root (str ''skills'') @ [n]) names) of
                               None \<Rightarrow> None
                             | Some dirs \<Rightarrow>
                                 map_option errors
                                   (validate_skills fs (sort dirs)
                                      \<lparr>errors = [], seen_names = []\<rparr>))))"
    by (simp add: main_errors_def Let_def)
  from registered checks folder kept mismatch_ne_duplicate pattern_ne_duplicate order
  show ?thesis
    by (intro conjI)
qed

theorem duplicate_name_first_sighting_witness:
  "validate_skills three_fs [skills @ [str ''a''], skills @ [str ''b'']]
     \<lparr>errors = [], seen_names = []\<rparr>
     = Some \<lparr>errors =
               [msg_name_mismatch (skills @ [str ''b'', str ''SKILL.md'']) (str ''a'') (str ''b''),
                msg_duplicate_name (skills @ [str ''b'', str ''SKILL.md'']) (str ''a'')
                  (str ''/repo/skills/a/SKILL.md'')],
             seen_names = [(str ''a'', str ''/repo/skills/a/SKILL.md'')]\<rparr> \<and>
   find (\<lambda>d. declared_name three_fs d = Some (str ''a''))
     [skills @ [str ''a''], skills @ [str ''b'']] = Some (skills @ [str ''a'']) \<and>
   map_of [(str ''a'', str ''/repo/skills/a/SKILL.md'')] (str ''a'')
     = Some (path_str (path_join (skills @ [str ''a'']) (str ''SKILL.md'')))"
proof -
  let ?st1 = "\<lparr>errors =
               [msg_name_mismatch (skills @ [str ''b'', str ''SKILL.md'']) (str ''a'') (str ''b''),
                msg_duplicate_name (skills @ [str ''b'', str ''SKILL.md'']) (str ''a'')
                  (str ''/repo/skills/a/SKILL.md'')],
             seen_names = [(str ''a'', str ''/repo/skills/a/SKILL.md'')]\<rparr>"
  have h1: "validate_skills three_fs [skills @ [str ''a''], skills @ [str ''b'']]
      \<lparr>errors = [], seen_names = []\<rparr> = Some ?st1"
    by code_simp
  have h2: "find (\<lambda>d. declared_name three_fs d = Some (str ''a''))
      [skills @ [str ''a''], skills @ [str ''b'']] = Some (skills @ [str ''a''])"
    by code_simp
  have h3: "fs_exists three_fs (path_join (skills @ [str ''c'']) (str ''SKILL.md'')) = Some True"
    by code_simp
  have h4: "fs_read_text three_fs (path_join (skills @ [str ''c'']) (str ''SKILL.md''))
      = Some (document (str ''a'') [])"
    by code_simp
  have h5: "parse_frontmatter (document (str ''a'') []) = (Some [(str ''name'', str ''a'')], None)"
    by code_simp
  have h6: "map_of [(str ''name'', str ''a'')] (str ''name'') = Some (str ''a'')"
    by code_simp
  have h7: "str ''a'' \<noteq> []"
    by code_simp
  have sel: "seen_names ?st1 = [(str ''a'', str ''/repo/skills/a/SKILL.md'')]"
    by simp
  note t = duplicate_name_first_sighting [OF h1 h2 h3 h4 h5 h6 h7, THEN conjunct1]
  from h1 h2 t show ?thesis
    unfolding sel by (intro conjI)
qed

theorem duplicate_name_pair_counterexample:
  "declared_name three_fs (skills @ [str ''b'']) = Some (str ''a'') \<and>
   declared_name three_fs (skills @ [str ''c'']) = Some (str ''a'') \<and>
   main_errors three_fs repo
     = Some [msg_name_mismatch (skills @ [str ''b'', str ''SKILL.md'']) (str ''a'') (str ''b''),
             msg_duplicate_name (skills @ [str ''b'', str ''SKILL.md'']) (str ''a'')
               (path_str (skills @ [str ''a'', str ''SKILL.md''])),
             msg_name_mismatch (skills @ [str ''c'', str ''SKILL.md'']) (str ''a'') (str ''c''),
             msg_duplicate_name (skills @ [str ''c'', str ''SKILL.md'']) (str ''a'')
               (path_str (skills @ [str ''a'', str ''SKILL.md'']))] \<and>
   msg_duplicate_name (skills @ [str ''c'', str ''SKILL.md'']) (str ''a'')
       (path_str (skills @ [str ''a'', str ''SKILL.md'']))
     \<noteq> msg_duplicate_name (skills @ [str ''c'', str ''SKILL.md'']) (str ''a'')
         (path_str (skills @ [str ''b'', str ''SKILL.md''])) \<and>
   parse_frontmatter (document [] []) = (Some [(str ''name'', [])], None) \<and>
   main_errors blank_fs repo
     = Some [msg_missing_name (skills @ [str ''p'', str ''SKILL.md'']),
             msg_missing_name (skills @ [str ''q'', str ''SKILL.md''])]"
  by code_simp

end
